theory Spec2Isabelle
  imports Main
begin

section \<open>Data model of the video generation service\<close>

text \<open>
  The service \<^verbatim>\<open>src/services/geminiService.ts\<close> consists of the private helper
  \<^verbatim>\<open>performGeneration\<close> and the exported \<^verbatim>\<open>generateVideo\<close>. The declarations of
  \<^verbatim>\<open>../types\<close> are not part of the sources at hand; the shape of the request is taken
  from the way the service reads it and the way \<^verbatim>\<open>PromptForm.tsx\<close> assembles it. The
  enumerations \<^verbatim>\<open>VeoModel\<close>, \<^verbatim>\<open>AspectRatio\<close> and \<^verbatim>\<open>Resolution\<close> are never inspected
  by the service, only copied into the payload, and are carried as strings.
\<close>

datatype GenerationMode =
  TEXT_TO_VIDEO | STORY_MODE | FRAMES_TO_VIDEO | REFERENCES_TO_VIDEO | EXTEND_VIDEO

text \<open>
  An \<^verbatim>\<open>ImageFile\<close>: the browser \<^verbatim>\<open>File\<close> (of which the service reads \<^verbatim>\<open>name\<close> and
  \<^verbatim>\<open>type\<close>), its base64 text and the optional description typed next to a reference.
\<close>

record ImageFile =
  file_name :: string
  file_type :: string
  base64 :: string
  description :: "string option"

text \<open>The \<^verbatim>\<open>Video\<close> handle of the remote API: all of its fields are optional.\<close>

record Video =
  uri :: "string option"
  videoBytes :: "string option"
  videoMimeType :: "string option"

record GenerateVideoParams =
  prompt :: string
  storyPrompts :: "string list option"
  model :: string
  aspectRatio :: string
  resolution :: string
  mode :: GenerationMode
  startFrame :: "ImageFile option"
  endFrame :: "ImageFile option"
  referenceImages :: "ImageFile list option"
  styleImage :: "ImageFile option"
  inputVideoObject :: "Video option"
  isLooping :: bool

text \<open>
  The payload handed to \<^verbatim>\<open>ai.models.generateVideos\<close>. A field that the code leaves
  unset is \<open>None\<close>. Field names that the request record already uses carry the prefix
  \<open>pl_\<close> (payload) or \<open>cfg_\<close> (its \<^verbatim>\<open>config\<close> block).
\<close>

record Image =
  imageBytes :: string
  mimeType :: string

datatype VideoGenerationReferenceType = ASSET | STYLE

record VideoGenerationReferenceImage =
  ref_image :: Image
  referenceType :: VideoGenerationReferenceType

record Config =
  numberOfVideos :: nat
  cfg_resolution :: string
  cfg_aspectRatio :: "string option"
  lastFrame :: "Image option"
  cfg_referenceImages :: "VideoGenerationReferenceImage list option"

record Payload =
  pl_model :: string
  pl_config :: Config
  pl_prompt :: "string option"
  pl_image :: "Image option"
  pl_video :: "Video option"

text \<open>
  Every \<^verbatim>\<open>throw\<close> of the service is one constructor; the comment gives the message of
  the \<^verbatim>\<open>Error\<close>. What a remote call, \<^verbatim>\<open>fetch\<close>, \<^verbatim>\<open>res.blob()\<close> or
  \<^verbatim>\<open>decodeURIComponent\<close> throws by itself passes through the service unchanged and
  is \<open>RemoteFailure\<close> with its message.
\<close>

datatype error =
    MissingExtensionSource  \<comment> \<open>An input video object is required to extend a video.\<close>
  | NoAssetsProduced        \<comment> \<open>No videos were generated.\<close>
  | MissingAssetLocator     \<comment> \<open>Generated video is missing a URI.\<close>
  | AssetFetchFailed nat string  \<comment> \<open>Failed to fetch video: status statusText\<close>
  | GenerationFailed        \<comment> \<open>No videos generated.\<close>
  | ChainBroken             \<comment> \<open>Previous step failed to produce a result.\<close>
  | StoryEmpty              \<comment> \<open>Story Mode failed to generate any video.\<close>
  | RemoteFailure string

section \<open>Building the payload (performGeneration, lines 29 to 131)\<close>

text \<open>Decimal text of a number, as a template literal renders an array index.\<close>

definition digitChar :: "nat \<Rightarrow> char" where
  "digitChar d = ''0123456789'' ! d"

function showNat :: "nat \<Rightarrow> string" where
  "showNat n = (if n < 10 then [digitChar n] else showNat (n div 10) @ [digitChar (n mod 10)])"
  by pat_completeness auto
termination
  by (relation "measure id") auto

declare showNat.simps [simp del]

text \<open>\<^verbatim>\<open>Array.prototype.join\<close> on strings.\<close>

fun join :: "string \<Rightarrow> string list \<Rightarrow> string" where
  "join sep [] = []"
| "join sep [x] = x"
| "join sep (x # y # ys) = x @ sep @ join sep (y # ys)"

text \<open>\<^verbatim>\<open>filter(Boolean)\<close> on an array of strings and nulls: drops null and the empty string.\<close>

fun filterBoolean :: "string option list \<Rightarrow> string list" where
  "filterBoolean [] = []"
| "filterBoolean (None # xs) = filterBoolean xs"
| "filterBoolean (Some s # xs) = (if s = [] then filterBoolean xs else s # filterBoolean xs)"

text \<open>Line 38.\<close>

definition isExtensionOperation :: "GenerateVideoParams \<Rightarrow> Video option \<Rightarrow> bool" where
  "isExtensionOperation params overrideVideoInput =
     (mode params = EXTEND_VIDEO \<or> overrideVideoInput \<noteq> None)"

text \<open>
  Line 53, \<^verbatim>\<open>overridePrompt || params.prompt\<close>: an override that is absent or the empty
  string is falsy and gives way to the prompt of the request.
\<close>

definition basePrompt :: "GenerateVideoParams \<Rightarrow> string option \<Rightarrow> string" where
  "basePrompt params overridePrompt =
     (case overridePrompt of
        None \<Rightarrow> prompt params
      | Some s \<Rightarrow> if s \<noteq> [] then s else prompt params)"

text \<open>The callback of \<^verbatim>\<open>map\<close> in line 59; \<open>idx\<close> is the index in the array, from 0.\<close>

definition refDescription :: "nat \<Rightarrow> ImageFile \<Rightarrow> string option" where
  "refDescription idx img =
     (case description img of
        None \<Rightarrow> None
      | Some d \<Rightarrow>
          if d \<noteq> [] then Some (''(Reference '' @ showNat (idx + 1) @ '': '' @ d @ '')'')
          else None)"

text \<open>Lines 58 to 61.\<close>

definition refDescriptions :: "ImageFile list \<Rightarrow> string" where
  "refDescriptions imgs =
     join '' '' (filterBoolean (map (\<lambda>(idx, img). refDescription idx img) (enumerate 0 imgs)))"

text \<open>Lines 53 to 66: the prompt after the reference descriptions are appended.\<close>

definition activePrompt ::
  "GenerateVideoParams \<Rightarrow> string option \<Rightarrow> Video option \<Rightarrow> string" where
  "activePrompt params overridePrompt overrideVideoInput =
     (let base = basePrompt params overridePrompt in
      case referenceImages params of
        None \<Rightarrow> base
      | Some imgs \<Rightarrow>
          if \<not> isExtensionOperation params overrideVideoInput \<and> length imgs \<noteq> 0 then
            (let descs = refDescriptions imgs in
             if descs \<noteq> [] then (if base \<noteq> [] then base @ '' '' @ descs else descs)
             else base)
          else base)"

definition toImage :: "ImageFile \<Rightarrow> Image" where
  "toImage f = \<lparr>imageBytes = base64 f, mimeType = file_type f\<rparr>"

text \<open>Lines 99 to 119: the assets in input order, then the style image.\<close>

definition referenceImagesPayload :: "GenerateVideoParams \<Rightarrow> VideoGenerationReferenceImage list" where
  "referenceImagesPayload params =
     (case referenceImages params of
        None \<Rightarrow> []
      | Some imgs \<Rightarrow> map (\<lambda>img. \<lparr>ref_image = toImage img, referenceType = ASSET\<rparr>) imgs)
     @ (case styleImage params of
          None \<Rightarrow> []
        | Some s \<Rightarrow> [\<lparr>ref_image = toImage s, referenceType = STYLE\<rparr>])"

text \<open>\<^verbatim>\<open>params.referenceImages?.length\<close> as a condition.\<close>

definition hasReferenceImages :: "GenerateVideoParams \<Rightarrow> bool" where
  "hasReferenceImages params =
     (case referenceImages params of None \<Rightarrow> False | Some imgs \<Rightarrow> length imgs \<noteq> 0)"

text \<open>
  Lines 29 to 131: the payload that \<^verbatim>\<open>performGeneration\<close> submits, or the error it
  throws before it submits anything.
\<close>

definition performGeneration_payload ::
  "GenerateVideoParams \<Rightarrow> string option \<Rightarrow> Video option \<Rightarrow> error + Payload" where
  "performGeneration_payload params overridePrompt overrideVideoInput =
     (let isExt = isExtensionOperation params overrideVideoInput;
          config = \<lparr>numberOfVideos = 1, cfg_resolution = resolution params,
                    cfg_aspectRatio = (if \<not> isExt then Some (aspectRatio params) else None),
                    lastFrame = None, cfg_referenceImages = None\<rparr>;
          ap = activePrompt params overridePrompt overrideVideoInput;
          payload = \<lparr>pl_model = model params, pl_config = config,
                     pl_prompt = (if ap \<noteq> [] then Some ap else None),
                     pl_image = None, pl_video = None\<rparr>
      in
      case overrideVideoInput of
        Some v \<Rightarrow> Inr (payload\<lparr>pl_video := Some v\<rparr>)
      | None \<Rightarrow>
          if mode params = FRAMES_TO_VIDEO then
            (let finalEndFrame = (if isLooping params then startFrame params else endFrame params)
             in Inr (payload\<lparr>pl_image := map_option toImage (startFrame params),
                              pl_config := config\<lparr>lastFrame := map_option toImage finalEndFrame\<rparr>\<rparr>))
          else if mode params = REFERENCES_TO_VIDEO
                  \<or> (mode params = STORY_MODE \<and> hasReferenceImages params) then
            (if \<not> isExt then
               (let refs = referenceImagesPayload params in
                if length refs > 0
                then Inr (payload\<lparr>pl_config := config\<lparr>cfg_referenceImages := Some refs\<rparr>\<rparr>)
                else Inr payload)
             else Inr payload)
          else if mode params = EXTEND_VIDEO then
            (case inputVideoObject params of
               Some v \<Rightarrow> Inr (payload\<lparr>pl_video := Some v\<rparr>)
             | None \<Rightarrow> Inl MissingExtensionSource)
          else Inr payload)"

section \<open>The remote service and the browser, as an explicit world\<close>

text \<open>
  A long-running operation of the remote API, the response it carries once it is done,
  and the response of \<^verbatim>\<open>fetch\<close>. \<open>blob_body\<close> is what \<^verbatim>\<open>res.blob()\<close> resolves to, or
  the message it rejects with.
\<close>

record GeneratedVideo =
  video :: "Video option"

record GenerateVideosResponse =
  generatedVideos :: "GeneratedVideo list option"

record Operation =
  op_name :: string
  op_done :: bool
  response :: "GenerateVideosResponse option"

record FetchResponse =
  ok :: bool
  status :: nat
  statusText :: string
  blob_body :: "string + string"

record GenerationResult =
  objectUrl :: string
  blob :: string
  res_uri :: string
  res_video :: Video

text \<open>
  Everything outside the service is a parameter: the constructor of the client library
  and its two calls, \<^verbatim>\<open>fetch\<close>, \<^verbatim>\<open>decodeURIComponent\<close>, \<^verbatim>\<open>URL.createObjectURL\<close>
  and \<^verbatim>\<open>process.env.API_KEY\<close>. The stateful ones read and update a state of type
  \<open>'r\<close>; \<open>Inl\<close> is the message of what the call throws or rejects with.
  \<open>GoogleGenAI\<close> is \<^verbatim>\<open>new GoogleGenAI({apiKey: ...})\<close>, applied to the key it is
  given: the constructor makes no remote call, and some builds of the library throw
  when the key is not set.
\<close>

record 'r Remote =
  GoogleGenAI :: "string option \<Rightarrow> string + unit"
  generateVideos :: "Payload \<Rightarrow> 'r \<Rightarrow> (string + Operation) \<times> 'r"
  getVideosOperation :: "Operation \<Rightarrow> 'r \<Rightarrow> (string + Operation) \<times> 'r"
  fetch :: "string \<Rightarrow> 'r \<Rightarrow> (string + FetchResponse) \<times> 'r"
  decodeURIComponent :: "string \<Rightarrow> string + string"
  createObjectURL :: "string \<Rightarrow> 'r \<Rightarrow> string \<times> 'r"
  API_KEY :: "string option"

text \<open>
  The world the service runs in: the state of the remote side and the record of every
  call and every timer the service has made so far, oldest first.
\<close>

datatype event = Submit Payload | Sleep nat | Poll Operation | Fetch string

record 'r World =
  remote :: 'r
  trace :: "event list"

definition submissions :: "event list \<Rightarrow> Payload list" where
  "submissions t = concat (map (\<lambda>e. case e of Submit p \<Rightarrow> [p] | _ \<Rightarrow> []) t)"

definition polls :: "event list \<Rightarrow> Operation list" where
  "polls t = concat (map (\<lambda>e. case e of Poll operation \<Rightarrow> [operation] | _ \<Rightarrow> []) t)"

definition fetches :: "event list \<Rightarrow> string list" where
  "fetches t = concat (map (\<lambda>e. case e of Fetch url \<Rightarrow> [url] | _ \<Rightarrow> []) t)"

definition sleeps :: "event list \<Rightarrow> nat list" where
  "sleeps t = concat (map (\<lambda>e. case e of Sleep ms \<Rightarrow> [ms] | _ \<Rightarrow> []) t)"

section \<open>The remote job cycle (performGeneration, lines 133 to 169)\<close>

text \<open>
  Lines 137 to 141. The loop has no bound, so it is a partial function: \<open>None\<close> is a
  loop that never ends.
\<close>

partial_function (option) performGeneration_poll ::
  "'r Remote \<Rightarrow> Operation \<Rightarrow> 'r World \<Rightarrow> ((error + Operation) \<times> 'r World) option" where
  "performGeneration_poll env operation w =
     (if op_done operation then Some (Inr operation, w)
      else
        (let w1 = w\<lparr>trace := trace w @ [Sleep 10000]\<rparr>;
             rs = getVideosOperation env operation (remote w1);
             w2 = w1\<lparr>remote := snd rs, trace := trace w1 @ [Poll operation]\<rparr>
         in case fst rs of
              Inl msg \<Rightarrow> Some (Inl (RemoteFailure msg), w2)
            | Inr operation' \<Rightarrow> performGeneration_poll env operation' w2))"

definition apiKeyText :: "'r Remote \<Rightarrow> string" where
  "apiKeyText env = (case API_KEY env of None \<Rightarrow> ''undefined'' | Some k \<Rightarrow> k)"

text \<open>Lines 143 to 169.\<close>

definition performGeneration_fetch ::
  "'r Remote \<Rightarrow> Operation \<Rightarrow> 'r World \<Rightarrow> (error + GenerationResult) \<times> 'r World" where
  "performGeneration_fetch env operation w =
     (case response operation of
        None \<Rightarrow> (Inl GenerationFailed, w)
      | Some resp \<Rightarrow>
         (case generatedVideos resp of
            None \<Rightarrow> (Inl NoAssetsProduced, w)
          | Some videos \<Rightarrow>
             (case videos of
                [] \<Rightarrow> (Inl NoAssetsProduced, w)
              | firstVideo # _ \<Rightarrow>
                 (case video firstVideo of
                    None \<Rightarrow> (Inl MissingAssetLocator, w)
                  | Some videoObject \<Rightarrow>
                     (case uri videoObject of
                        None \<Rightarrow> (Inl MissingAssetLocator, w)
                      | Some u \<Rightarrow>
                         if u = [] then (Inl MissingAssetLocator, w)
                         else
                          (case decodeURIComponent env u of
                             Inl msg \<Rightarrow> (Inl (RemoteFailure msg), w)
                           | Inr url \<Rightarrow>
                              (let target = url @ ''&key='' @ apiKeyText env;
                                   rs = fetch env target (remote w);
                                   w1 = w\<lparr>remote := snd rs, trace := trace w @ [Fetch target]\<rparr>
                               in case fst rs of
                                    Inl msg \<Rightarrow> (Inl (RemoteFailure msg), w1)
                                  | Inr res \<Rightarrow>
                                     if \<not> ok res
                                     then (Inl (AssetFetchFailed (status res) (statusText res)), w1)
                                     else
                                      (case blob_body res of
                                         Inl msg \<Rightarrow> (Inl (RemoteFailure msg), w1)
                                       | Inr videoBlob \<Rightarrow>
                                          (let ou = createObjectURL env videoBlob (remote w1)
                                           in (Inr \<lparr>objectUrl = fst ou, blob = videoBlob,
                                                     res_uri = url, res_video = videoObject\<rparr>,
                                               w1\<lparr>remote := snd ou\<rparr>))))))))))"

text \<open>Lines 133 to 169: submit, poll until done, fetch.\<close>

definition performGeneration_cycle ::
  "'r Remote \<Rightarrow> Payload \<Rightarrow> 'r World \<Rightarrow> ((error + GenerationResult) \<times> 'r World) option" where
  "performGeneration_cycle env payload w =
     (let rs = generateVideos env payload (remote w);
          w1 = w\<lparr>remote := snd rs, trace := trace w @ [Submit payload]\<rparr>
      in case fst rs of
           Inl msg \<Rightarrow> Some (Inl (RemoteFailure msg), w1)
         | Inr operation \<Rightarrow>
            (case performGeneration_poll env operation w1 of
               None \<Rightarrow> None
             | Some (Inl e, w2) \<Rightarrow> Some (Inl e, w2)
             | Some (Inr operation', w2) \<Rightarrow> Some (performGeneration_fetch env operation' w2)))"

text \<open>The whole of \<^verbatim>\<open>performGeneration\<close>, lines 22 to 170.\<close>

definition performGeneration ::
  "'r Remote \<Rightarrow> GenerateVideoParams \<Rightarrow> string option \<Rightarrow> Video option \<Rightarrow> 'r World
     \<Rightarrow> ((error + GenerationResult) \<times> 'r World) option" where
  "performGeneration env params overridePrompt overrideVideoInput w =
     (case performGeneration_payload params overridePrompt overrideVideoInput of
        Inl e \<Rightarrow> Some (Inl e, w)
      | Inr payload \<Rightarrow> performGeneration_cycle env payload w)"

section \<open>generateVideo (lines 172 to 224)\<close>

text \<open>
  The body of the loop over the story prompts, lines 186 to 209, for the index \<open>i\<close>
  and the value of \<^verbatim>\<open>currentResult\<close> at the start of the iteration.
\<close>

definition storyStep ::
  "'r Remote \<Rightarrow> GenerateVideoParams \<Rightarrow> string list \<Rightarrow> nat \<Rightarrow> GenerationResult option
     \<Rightarrow> 'r World \<Rightarrow> ((error + GenerationResult) \<times> 'r World) option" where
  "storyStep env params prompts i currentResult w =
     (let currentPrompt = prompts ! i in
      if i = 0 then
        performGeneration env (params\<lparr>mode := STORY_MODE, prompt := currentPrompt\<rparr>) None None w
      else
        (case currentResult of
           None \<Rightarrow> Some (Inl ChainBroken, w)
         | Some previous \<Rightarrow>
             performGeneration env params (Some currentPrompt) (Some (res_video previous)) w))"

text \<open>The loop of lines 185 to 211; it yields the last value of \<^verbatim>\<open>currentResult\<close>.\<close>

function storyLoop ::
  "'r Remote \<Rightarrow> GenerateVideoParams \<Rightarrow> string list \<Rightarrow> nat \<Rightarrow> GenerationResult option
     \<Rightarrow> 'r World \<Rightarrow> ((error + GenerationResult option) \<times> 'r World) option" where
  "storyLoop env params prompts i currentResult w =
     (if i < length prompts then
        (case storyStep env params prompts i currentResult w of
           None \<Rightarrow> None
         | Some (Inl e, w') \<Rightarrow> Some (Inl e, w')
         | Some (Inr r, w') \<Rightarrow> storyLoop env params prompts (Suc i) (Some r) w')
      else Some (Inr currentResult, w))"
  by pat_completeness auto
termination
  by (relation "measure (\<lambda>(env, params, prompts, i, currentResult, w). length prompts - i)") auto

declare storyLoop.simps [simp del]

text \<open>
  Line 177 constructs the client before the mode is looked at; what the constructor
  throws ends the call. The calls of the client are the calls of \<open>env\<close>.
\<close>

definition generateVideo ::
  "'r Remote \<Rightarrow> GenerateVideoParams \<Rightarrow> 'r World
     \<Rightarrow> ((error + GenerationResult) \<times> 'r World) option" where
  "generateVideo env params w =
     (case GoogleGenAI env (API_KEY env) of
        Inl msg \<Rightarrow> Some (Inl (RemoteFailure msg), w)
      | Inr ai \<Rightarrow>
         (case storyPrompts params of
            Some prompts \<Rightarrow>
              if mode params = STORY_MODE \<and> length prompts > 0 then
                (case storyLoop env params prompts 0 None w of
                   None \<Rightarrow> None
                 | Some (Inl e, w') \<Rightarrow> Some (Inl e, w')
                 | Some (Inr None, w') \<Rightarrow> Some (Inl StoryEmpty, w')
                 | Some (Inr (Some currentResult), w') \<Rightarrow> Some (Inr currentResult, w'))
              else performGeneration env params None None w
          | None \<Rightarrow> performGeneration env params None None w))"

section \<open>What the specification says, as definitions to compare with\<close>

text \<open>
  The texts that the specification appends to the prompt: one for each reference image
  with a non-empty label, in input order, formatted with the position of the image in
  the list counted from \<open>k\<close> (1 for the first image).
\<close>

fun labelTexts :: "nat \<Rightarrow> ImageFile list \<Rightarrow> string list" where
  "labelTexts k [] = []"
| "labelTexts k (img # imgs) =
     (case description img of
        None \<Rightarrow> []
      | Some d \<Rightarrow> if d = [] then [] else [''(Reference '' @ showNat k @ '': '' @ d @ '')''])
     @ labelTexts (Suc k) imgs"

text \<open>A generated-asset descriptor has a retrievable location: a video with a non-empty URI.\<close>

definition hasLocator :: "GeneratedVideo \<Rightarrow> bool" where
  "hasLocator gv =
     (case video gv of
        None \<Rightarrow> False
      | Some v \<Rightarrow> (case uri v of None \<Rightarrow> False | Some u \<Rightarrow> u \<noteq> []))"

text \<open>
  The events of a run of polls: before each status query of an operation the service
  waits 10000 milliseconds.
\<close>

definition pollEvents :: "Operation list \<Rightarrow> event list" where
  "pollEvents ops = concat (map (\<lambda>operation. [Sleep 10000, Poll operation]) ops)"

text \<open>
  How the polling loop can end: with a handle that reports completion, or with what the
  status query itself threw.
\<close>

definition pollOutcome :: "error + Operation \<Rightarrow> bool" where
  "pollOutcome x =
     (case x of
        Inl e \<Rightarrow> (case e of RemoteFailure msg \<Rightarrow> True | _ \<Rightarrow> False)
      | Inr operation \<Rightarrow> op_done operation)"

text \<open>
  What the remote side answers to the first \<open>n\<close> status queries when each query
  passes the handle that the previous one returned, starting from \<open>operation\<close> in the
  remote state \<open>s\<close>. The list stops early at a query that throws.
\<close>

fun pollScript :: "'r Remote \<Rightarrow> nat \<Rightarrow> Operation \<Rightarrow> 'r \<Rightarrow> (string + Operation) list" where
  "pollScript env 0 operation s = []"
| "pollScript env (Suc n) operation s =
     (case fst (getVideosOperation env operation s) of
        Inl msg \<Rightarrow> [Inl msg]
      | Inr operation' \<Rightarrow>
          Inr operation' # pollScript env n operation' (snd (getVideosOperation env operation s)))"

text \<open>
  The remote side completes a job with an asset that can be fetched: the completed
  handle carries a response whose first asset descriptor has a video with a non-empty
  URI that decodes, and the fetch of that location answers with success and a body.
\<close>

definition assetFetchable :: "'r Remote \<Rightarrow> Operation \<Rightarrow> bool" where
  "assetFetchable env operation =
     (\<exists>resp gv gvs v u url.
        response operation = Some resp \<and> generatedVideos resp = Some (gv # gvs)
        \<and> video gv = Some v \<and> uri v = Some u \<and> u \<noteq> [] \<and> decodeURIComponent env u = Inr url
        \<and> (\<forall>s. \<exists>res body. fst (fetch env (url @ ''&key='' @ apiKeyText env) s) = Inr res
                \<and> ok res \<and> blob_body res = Inr body))"

text \<open>
  The remote side completes every job: it accepts every submission, in every state, and
  the handle it returns is either complete already or becomes complete after some number
  of status queries none of which throws; the completed handle has an asset that can be
  fetched.
\<close>

definition completesEveryJob :: "'r Remote \<Rightarrow> bool" where
  "completesEveryJob env =
     (\<forall>payload s. \<exists>operation0.
        fst (generateVideos env payload s) = Inr operation0
        \<and> (if op_done operation0 then assetFetchable env operation0
            else (\<exists>n ops.
                    pollScript env (Suc n) operation0 (snd (generateVideos env payload s))
                      = map Inr ops
                    \<and> (\<forall>i<n. \<not> op_done (ops ! i)) \<and> op_done (ops ! n)
                    \<and> assetFetchable env (ops ! n))))"

section \<open>The loop of generateVideo with the result of every step kept\<close>

text \<open>
  \<^verbatim>\<open>generateVideo\<close> keeps only the latest result in \<^verbatim>\<open>currentResult\<close>. To speak
  about the results of all steps, the same iterations are written once more as a
  recursion over the prompts that returns every result in step order. \<open>storyChain\<close> is
  the iterations after the first (lines 197 to 208): each calls \<^verbatim>\<open>performGeneration\<close>
  with the request, the prompt of the iteration as \<^verbatim>\<open>overridePrompt\<close> and the video
  of the previous result as \<^verbatim>\<open>overrideVideoInput\<close>; the first failure ends the run.
\<close>

fun storyChain ::
  "'r Remote \<Rightarrow> GenerateVideoParams \<Rightarrow> string list \<Rightarrow> GenerationResult \<Rightarrow> 'r World
     \<Rightarrow> ((error + GenerationResult list) \<times> 'r World) option" where
  "storyChain env params [] previous w = Some (Inr [], w)"
| "storyChain env params (p # ps) previous w =
     (case performGeneration env params (Some p) (Some (res_video previous)) w of
        None \<Rightarrow> None
      | Some (Inl e, w') \<Rightarrow> Some (Inl e, w')
      | Some (Inr r, w') \<Rightarrow>
          (case storyChain env params ps r w' of
             None \<Rightarrow> None
           | Some (Inl e, w'') \<Rightarrow> Some (Inl e, w'')
           | Some (Inr rs, w'') \<Rightarrow> Some (Inr (r # rs), w'')))"

text \<open>
  The whole loop. The first iteration (lines 189 to 196) calls \<^verbatim>\<open>performGeneration\<close>
  with no override, on the request with its mode set to STORY_MODE and its prompt
  replaced by the first story prompt.
\<close>

fun storySequence ::
  "'r Remote \<Rightarrow> GenerateVideoParams \<Rightarrow> string list \<Rightarrow> 'r World
     \<Rightarrow> ((error + GenerationResult list) \<times> 'r World) option" where
  "storySequence env params [] w = Some (Inr [], w)"
| "storySequence env params (p # ps) w =
     (case performGeneration env (params\<lparr>mode := STORY_MODE, prompt := p\<rparr>) None None w of
        None \<Rightarrow> None
      | Some (Inl e, w') \<Rightarrow> Some (Inl e, w')
      | Some (Inr r, w') \<Rightarrow>
          (case storyChain env params ps r w' of
             None \<Rightarrow> None
           | Some (Inl e, w'') \<Rightarrow> Some (Inl e, w'')
           | Some (Inr rs, w'') \<Rightarrow> Some (Inr (r # rs), w'')))"

text \<open>
  The states in which the loop of \<^verbatim>\<open>generateVideo\<close> stands at the head of an
  iteration: the index, the value of \<^verbatim>\<open>currentResult\<close> and the world. The loop
  starts at index 0 with \<^verbatim>\<open>null\<close>, and goes on to the next index only when the body
  returned a result.
\<close>

inductive storyReach ::
  "'r Remote \<Rightarrow> GenerateVideoParams \<Rightarrow> string list \<Rightarrow> 'r World
     \<Rightarrow> nat \<Rightarrow> GenerationResult option \<Rightarrow> 'r World \<Rightarrow> bool"
  for env params prompts w0 where
  start: "storyReach env params prompts w0 0 None w0"
| step: "storyReach env params prompts w0 i currentResult w \<Longrightarrow> i < length prompts \<Longrightarrow>
         storyStep env params prompts i currentResult w = Some (Inr r, w') \<Longrightarrow>
         storyReach env params prompts w0 (Suc i) (Some r) w'"

code_pred storyReach .

section \<open>Sample inputs\<close>

definition sampleFile :: "string \<Rightarrow> string option \<Rightarrow> ImageFile" where
  "sampleFile n d =
     \<lparr>file_name = n, file_type = ''image/png'', base64 = ''QUJD'', description = d\<rparr>"

text \<open>Two frames that differ in name, type and bytes.\<close>

definition firstFrame :: ImageFile where
  "firstFrame =
     \<lparr>file_name = ''first.png'', file_type = ''image/png'', base64 = ''Rmlyc3Q='',
      description = None\<rparr>"

definition finalFrame :: ImageFile where
  "finalFrame =
     \<lparr>file_name = ''final.jpg'', file_type = ''image/jpeg'', base64 = ''RmluYWw='',
      description = None\<rparr>"

text \<open>
  Twelve reference images of which the first, the third and the twelfth carry a label;
  the second has the empty label and the others none.
\<close>

definition twelveReferences :: "ImageFile list" where
  "twelveReferences =
     [sampleFile ''img1'' (Some ''Hero''), sampleFile ''img2'' (Some ''''),
      sampleFile ''img3'' (Some ''Car'')]
     @ replicate 8 (sampleFile ''img'' None)
     @ [sampleFile ''img12'' (Some ''Rain'')]"

definition sampleRequest :: GenerateVideoParams where
  "sampleRequest =
     \<lparr>prompt = ''A chase'', storyPrompts = None, model = ''veo'', aspectRatio = ''16:9'',
      resolution = ''720p'', mode = TEXT_TO_VIDEO, startFrame = None, endFrame = None,
      referenceImages = None, styleImage = None, inputVideoObject = None, isLooping = False\<rparr>"

definition sampleVideo :: "string \<Rightarrow> Video" where
  "sampleVideo u = \<lparr>uri = Some u, videoBytes = None, videoMimeType = None\<rparr>"

text \<open>
  A remote side that records nothing but the number of status queries answered for the
  current job. It accepts every submission, names the job after the submitted prompt,
  answers \<open>n\<close> status queries with a handle that is not done and every later one with
  a completed handle whose assets are \<open>assets\<close> of the job name, and serves every
  fetch.
\<close>

definition spyRemote :: "nat \<Rightarrow> (string \<Rightarrow> GeneratedVideo list option) \<Rightarrow> nat Remote" where
  "spyRemote n assets =
     \<lparr>GoogleGenAI = (\<lambda>key.
        case key of
          None \<Rightarrow> Inl ''An API Key must be set when running in a browser''
        | Some k \<Rightarrow> Inr ()),
      generateVideos = (\<lambda>payload s.
        (Inr \<lparr>op_name = (case pl_prompt payload of None \<Rightarrow> ''job'' | Some p \<Rightarrow> p),
              op_done = False, response = None\<rparr>, 0)),
      getVideosOperation = (\<lambda>operation s.
        (Inr (if s < n then operation
              else operation\<lparr>op_done := True,
                     response := Some \<lparr>generatedVideos = assets (op_name operation)\<rparr>\<rparr>),
         Suc s)),
      fetch = (\<lambda>url s.
        (Inr \<lparr>ok = True, status = 200, statusText = ''OK'', blob_body = Inr ''bytes''\<rparr>, s)),
      decodeURIComponent = Inr,
      createObjectURL = (\<lambda>b s. (''blob:local'', s)),
      API_KEY = Some ''k''\<rparr>"

definition noAssets :: "string \<Rightarrow> GeneratedVideo list option" where
  "noAssets name = Some []"

definition oneAsset :: "string \<Rightarrow> GeneratedVideo list option" where
  "oneAsset name = Some [\<lparr>video = Some (sampleVideo (''https://v.example/'' @ name))\<rparr>]"

text \<open>What a cycle on the sample remote side returns for the job of that name.\<close>

definition sampleResult :: "string \<Rightarrow> GenerationResult" where
  "sampleResult name =
     \<lparr>objectUrl = ''blob:local'', blob = ''bytes'', res_uri = ''https://v.example/'' @ name,
      res_video = sampleVideo (''https://v.example/'' @ name)\<rparr>"

definition storyRequest :: GenerateVideoParams where
  "storyRequest = sampleRequest\<lparr>mode := STORY_MODE, storyPrompts := Some [''open'', ''continue'']\<rparr>"

definition freshWorld :: "nat World" where
  "freshWorld = \<lparr>remote = 0, trace = []\<rparr>"

definition samplePayload :: Payload where
  "samplePayload =
     \<lparr>pl_model = ''veo'',
      pl_config = \<lparr>numberOfVideos = 1, cfg_resolution = ''720p'', cfg_aspectRatio = Some ''16:9'',
                    lastFrame = None, cfg_referenceImages = None\<rparr>,
      pl_prompt = Some ''A chase'', pl_image = None, pl_video = None\<rparr>"

text \<open>The handle the sample remote side returns for a job, before and after completion.\<close>

definition pendingJob :: "string \<Rightarrow> Operation" where
  "pendingJob name = \<lparr>op_name = name, op_done = False, response = None\<rparr>"

definition finishedJob :: "string \<Rightarrow> GeneratedVideo list option \<Rightarrow> Operation" where
  "finishedJob name videos =
     \<lparr>op_name = name, op_done = True, response = Some \<lparr>generatedVideos = videos\<rparr>\<rparr>"

section \<open>The prompt and the payload\<close>

lemma filterBoolean_refDescription:
  "filterBoolean (map (\<lambda>(idx, img). refDescription idx img) (enumerate n imgs))
     = labelTexts (Suc n) imgs"
  by (induction imgs arbitrary: n) (auto simp: refDescription_def split: option.splits)

lemma refDescriptions_labelTexts: "refDescriptions imgs = join '' '' (labelTexts 1 imgs)"
  by (simp add: refDescriptions_def filterBoolean_refDescription)

lemma labelTexts_enumerate:
  "labelTexts (Suc n) imgs =
     concat (map (\<lambda>(i, img). case description img of
                                None \<Rightarrow> []
                              | Some d \<Rightarrow> if d = [] then []
                                          else [''(Reference '' @ showNat (i + 1) @ '': '' @ d @ '')''])
                 (enumerate n imgs))"
  by (induction imgs arbitrary: n) (auto split: option.splits)

lemma labelTexts_append:
  "labelTexts k (xs @ ys) = labelTexts k xs @ labelTexts (k + length xs) ys"
  by (induction xs arbitrary: k) simp_all

lemma labelTexts_unlabelled:
  "\<forall>img\<in>set imgs. description img = None \<Longrightarrow> labelTexts k imgs = []"
  by (induction imgs arbitrary: k) simp_all

lemma join_eq_Nil:
  "join sep xs = [] \<longleftrightarrow> (\<forall>x\<in>set xs. x = []) \<and> (sep = [] \<or> length xs \<le> 1)"
  by (induction sep xs rule: join.induct) auto

lemma spaced_join: "xs \<noteq> [] \<Longrightarrow> concat (map ((@) sep) xs) = sep @ join sep xs"
  by (induction sep xs rule: join.induct) simp_all

lemma labelTexts_nonempty: "x \<in> set (labelTexts k imgs) \<Longrightarrow> x \<noteq> []"
  by (induction imgs arbitrary: k) (auto split: option.splits if_splits)

lemma spaced_text_nonempty:
  "labels \<noteq> [] \<Longrightarrow> \<forall>l\<in>set labels. l \<noteq> [] \<Longrightarrow>
     (if base = [] then tl (concat (map ((@) '' '') labels))
      else base @ concat (map ((@) '' '') labels)) \<noteq> []"
  by (cases labels) auto

lemma join_labelTexts_Nil: "join '' '' (labelTexts k imgs) = [] \<longleftrightarrow> labelTexts k imgs = []"
  using labelTexts_nonempty[of _ k imgs]
  by (cases "labelTexts k imgs") (auto simp: join_eq_Nil)

lemma activePrompt_labels:
  "activePrompt params overridePrompt overrideVideoInput =
     (let base = basePrompt params overridePrompt in
      case referenceImages params of
        None \<Rightarrow> base
      | Some imgs \<Rightarrow>
          if isExtensionOperation params overrideVideoInput \<or> labelTexts 1 imgs = [] then base
          else if base = [] then join '' '' (labelTexts 1 imgs)
          else base @ '' '' @ join '' '' (labelTexts 1 imgs))"
  by (cases "referenceImages params")
     (auto simp: activePrompt_def Let_def refDescriptions_labelTexts join_labelTexts_Nil)

text \<open>
  The prompt with every label text written out after it, each behind one space; without
  a base prompt the leading space is dropped.
\<close>

lemma activePrompt_spaced:
  "activePrompt params overridePrompt overrideVideoInput =
     (let base = basePrompt params overridePrompt;
          labels = (if mode params = EXTEND_VIDEO \<or> overrideVideoInput \<noteq> None then []
                    else case referenceImages params of None \<Rightarrow> [] | Some imgs \<Rightarrow> labelTexts 1 imgs)
      in if base = [] then tl (concat (map ((@) '' '') labels))
         else base @ concat (map ((@) '' '') labels))"
proof (cases "referenceImages params")
  case None
  then show ?thesis by (simp add: activePrompt_labels Let_def)
next
  case (Some imgs)
  show ?thesis
  proof (cases "isExtensionOperation params overrideVideoInput \<or> labelTexts 1 imgs = []")
    case True
    with Some show ?thesis
      by (auto simp: activePrompt_labels Let_def isExtensionOperation_def)
  next
    case False
    then have "concat (map ((@) '' '') (labelTexts 1 imgs)) = '' '' @ join '' '' (labelTexts 1 imgs)"
      using spaced_join[of "labelTexts 1 imgs" "'' ''"] by simp
    with Some False show ?thesis
      by (auto simp: activePrompt_labels Let_def isExtensionOperation_def)
  qed
qed

lemma payload_prompt:
  "performGeneration_payload params overridePrompt overrideVideoInput = Inr pl \<Longrightarrow>
     pl_prompt pl =
       (if activePrompt params overridePrompt overrideVideoInput = [] then None
        else Some (activePrompt params overridePrompt overrideVideoInput))"
  by (auto simp: performGeneration_payload_def Let_def split: option.splits if_splits)

lemma payload_total:
  "mode params \<noteq> EXTEND_VIDEO \<or> overrideVideoInput \<noteq> None \<or> inputVideoObject params \<noteq> None \<Longrightarrow>
     \<exists>pl. performGeneration_payload params overridePrompt overrideVideoInput = Inr pl"
  by (auto simp: performGeneration_payload_def Let_def split: option.splits)

lemma payload_video:
  "performGeneration_payload params overridePrompt overrideVideoInput = Inr pl \<Longrightarrow>
     pl_video pl =
       (case overrideVideoInput of
          Some v \<Rightarrow> Some v
        | None \<Rightarrow> if mode params = EXTEND_VIDEO then inputVideoObject params else None)"
  by (auto simp: performGeneration_payload_def Let_def split: option.splits if_splits)

text \<open>
  The text of a number is its decimal numeral: read back digit by digit it gives the
  number, it has only digits, and it has no leading zero.
\<close>

lemma digitChar_value: "d < 10 \<Longrightarrow> of_char (digitChar d) - 48 = (d::nat)"
proof -
  assume "d < 10"
  then have "d \<in> {0, 1, 2, 3, 4, 5, 6, 7, 8, 9}" by auto
  then show ?thesis by (auto simp: digitChar_def)
qed

lemma digitChar_digit: "d < 10 \<Longrightarrow> digitChar d \<in> set ''0123456789''"
  unfolding digitChar_def by (rule nth_mem) simp

lemma digitChar_zero: "d < 10 \<Longrightarrow> digitChar d = CHR ''0'' \<Longrightarrow> d = 0"
  using digitChar_value[of d] by simp

lemma showNat_nonempty: "showNat n \<noteq> []"
  by (subst showNat.simps) simp

lemma showNat_value: "foldl (\<lambda>a c. 10 * a + (of_char c - 48)) 0 (showNat n) = n"
proof (induction n rule: showNat.induct)
  case (1 n)
  show ?case
  proof (cases "n < 10")
    case True
    then show ?thesis by (subst showNat.simps) (simp add: digitChar_value)
  next
    case False
    with 1 have "foldl (\<lambda>a c. 10 * a + (of_char c - 48)) 0 (showNat (n div 10)) = n div 10"
      by simp
    with False show ?thesis
      by (subst showNat.simps) (simp add: digitChar_value)
  qed
qed

lemma showNat_digits: "set (showNat n) \<subseteq> set ''0123456789''"
proof (induction n rule: showNat.induct)
  case (1 n)
  show ?case
  proof (cases "n < 10")
    case True
    then show ?thesis using digitChar_digit[of n] by (subst showNat.simps) simp
  next
    case False
    with 1 have "set (showNat (n div 10)) \<subseteq> set ''0123456789''" by simp
    with False show ?thesis
      using digitChar_digit[of "n mod 10"] by (subst showNat.simps) simp
  qed
qed

lemma showNat_no_leading_zero: "0 < n \<Longrightarrow> hd (showNat n) \<noteq> CHR ''0''"
proof (induction n rule: showNat.induct)
  case (1 n)
  show ?case
  proof (cases "n < 10")
    case True
    with 1(2) show ?thesis using digitChar_zero[of n] by (subst showNat.simps) auto
  next
    case False
    then have "0 < n div 10" by simp
    with 1(1) False have "hd (showNat (n div 10)) \<noteq> CHR ''0''" by simp
    with False show ?thesis
      by (subst showNat.simps) (simp add: showNat_nonempty)
  qed
qed

lemma showNat_1 [simp]: "showNat (Suc 0) = ''1''"
  by (simp add: showNat.simps digitChar_def)

lemma showNat_3: "showNat 3 = ''3''"
  by (simp add: showNat.simps digitChar_def)

lemma showNat_12: "showNat 12 = ''12''"
  by (simp add: showNat.simps digitChar_def)

lemma labelTexts_twelve:
  "labelTexts 1 twelveReferences
     = [''(Reference 1: Hero)'', ''(Reference 3: Car)'', ''(Reference 12: Rain)'']"
proof -
  have a: "labelTexts 1 [sampleFile ''img1'' (Some ''Hero''), sampleFile ''img2'' (Some ''''),
                        sampleFile ''img3'' (Some ''Car'')]
             = [''(Reference 1: Hero)'', ''(Reference '' @ showNat 3 @ '': Car)'']"
    by (simp add: sampleFile_def numeral_3_eq_3)
  have b: "labelTexts 4 (replicate 8 (sampleFile ''img'' None)) = []"
    by (rule labelTexts_unlabelled) (simp add: sampleFile_def)
  have c: "labelTexts 12 [sampleFile ''img12'' (Some ''Rain'')]
             = [''(Reference '' @ showNat 12 @ '': Rain)'']"
    by (simp add: sampleFile_def)
  let ?A = "[sampleFile ''img1'' (Some ''Hero''), sampleFile ''img2'' (Some ''''),
             sampleFile ''img3'' (Some ''Car'')]"
  let ?B = "replicate 8 (sampleFile ''img'' None)"
  let ?C = "[sampleFile ''img12'' (Some ''Rain'')]"
  have l1: "1 + length ?A = 4" by simp
  have l2: "4 + length ?B = 12" by simp
  have "labelTexts 1 (?A @ ?B @ ?C) = labelTexts 1 ?A @ labelTexts 4 ?B @ labelTexts 12 ?C"
    by (simp only: labelTexts_append l1 l2)
  also have "\<dots> = [''(Reference 1: Hero)'', ''(Reference 3: Car)'', ''(Reference 12: Rain)'']"
    by (simp only: a b c showNat_3 showNat_12) simp
  finally show ?thesis by (simp only: twelveReferences_def)
qed

text \<open>
  C2. The built submission carries \<^verbatim>\<open>aspectRatio\<close> exactly when the mode is not
  EXTEND_VIDEO and no prior-video override is supplied; in that case a submission is
  always built, its aspect ratio is the one of the request and it has no video field.
\<close>

theorem C2_aspect_ratio_iff_not_extension:
  "(mode params \<noteq> EXTEND_VIDEO \<and> overrideVideoInput = None \<longrightarrow>
      (\<exists>pl. performGeneration_payload params overridePrompt overrideVideoInput = Inr pl
         \<and> cfg_aspectRatio (pl_config pl) = Some (aspectRatio params) \<and> pl_video pl = None))
   \<and> (\<forall>pl. performGeneration_payload params overridePrompt overrideVideoInput = Inr pl \<longrightarrow>
         ((cfg_aspectRatio (pl_config pl) \<noteq> None)
            \<longleftrightarrow> (mode params \<noteq> EXTEND_VIDEO \<and> overrideVideoInput = None)))"
  by (auto simp: performGeneration_payload_def isExtensionOperation_def Let_def
           split: option.splits if_splits)

theorem C2_witness:
  "(\<exists>pl. performGeneration_payload sampleRequest None None = Inr pl
      \<and> cfg_aspectRatio (pl_config pl) = Some ''16:9'' \<and> pl_video pl = None)
   \<and> (\<exists>pl. performGeneration_payload sampleRequest None (Some (sampleVideo ''u'')) = Inr pl
      \<and> cfg_aspectRatio (pl_config pl) = None)"
proof -
  have a: "mode sampleRequest \<noteq> EXTEND_VIDEO" "aspectRatio sampleRequest = ''16:9''"
    by (simp_all add: sampleRequest_def)
  obtain pl where pl: "performGeneration_payload sampleRequest None (Some (sampleVideo ''u'')) = Inr pl"
    using payload_total[of sampleRequest "Some (sampleVideo ''u'')" None] by auto
  from C2_aspect_ratio_iff_not_extension[of sampleRequest "Some (sampleVideo ''u'')" None] pl
  have "cfg_aspectRatio (pl_config pl) = None" by simp
  with pl C2_aspect_ratio_iff_not_extension[of sampleRequest None None] a
  show ?thesis by auto
qed

text \<open>
  C3. In a build that is not an extension (mode not EXTEND_VIDEO, no prior-video
  override) and whose reference images carry at least one non-empty label, a submission
  is built and its prompt is the base prompt followed by the label texts, each behind
  one space; with an empty base prompt the first space is dropped, so the label texts
  joined by single spaces are the whole prompt. The label texts are one text
  \<^verbatim>\<open>(Reference i: label)\<close> for each reference image with a non-empty label, in
  input order, \<open>i\<close> being the position of the image counted from 1 and written as a
  decimal numeral. For the references (img1, Hero), (img2, empty label) and the prompt
  "A chase" the prompt is "A chase (Reference 1: Hero)".
\<close>

theorem C3_reference_labels_appended:
  assumes "mode params \<noteq> EXTEND_VIDEO"
    and "referenceImages params = Some imgs"
    and "labelTexts 1 imgs \<noteq> []"
  shows "(\<exists>pl. performGeneration_payload params overridePrompt None = Inr pl
            \<and> pl_prompt pl =
                Some (let base = (case overridePrompt of
                                    None \<Rightarrow> prompt params
                                  | Some s \<Rightarrow> if s = [] then prompt params else s)
                      in if base = [] then tl (concat (map ((@) '' '') (labelTexts 1 imgs)))
                         else base @ concat (map ((@) '' '') (labelTexts 1 imgs))))
         \<and> labelTexts 1 imgs =
              concat (map (\<lambda>(i, img). case description img of
                               None \<Rightarrow> []
                             | Some d \<Rightarrow> if d = [] then []
                                         else [''(Reference '' @ showNat (i + 1) @ '': '' @ d @ '')''])
                          (enumerate 0 imgs))
         \<and> (\<forall>n. foldl (\<lambda>a c. 10 * a + (of_char c - 48)) 0 (showNat n) = n
                \<and> set (showNat n) \<subseteq> set ''0123456789''
                \<and> (0 < n \<longrightarrow> hd (showNat n) \<noteq> CHR ''0''))
         \<and> (imgs = [img1, img2] \<and> description img1 = Some ''Hero'' \<and> description img2 = Some ''''
               \<and> overridePrompt = None \<and> prompt params = ''A chase''
             \<longrightarrow> (\<exists>pl. performGeneration_payload params overridePrompt None = Inr pl
                     \<and> pl_prompt pl = Some ''A chase (Reference 1: Hero)''))"
proof -
  let ?base = "case overridePrompt of
                 None \<Rightarrow> prompt params
               | Some s \<Rightarrow> if s = [] then prompt params else s"
  let ?text = "if ?base = [] then tl (concat (map ((@) '' '') (labelTexts 1 imgs)))
               else ?base @ concat (map ((@) '' '') (labelTexts 1 imgs))"
  have base: "basePrompt params overridePrompt = ?base"
    by (simp add: basePrompt_def split: option.splits)
  have ap: "activePrompt params overridePrompt None = ?text"
    using assms(1,2) by (simp add: activePrompt_spaced base Let_def)
  have ne: "?text \<noteq> []"
    using spaced_text_nonempty[OF assms(3)] labelTexts_nonempty by blast
  obtain pl where pl: "performGeneration_payload params overridePrompt None = Inr pl"
    using payload_total[of params None overridePrompt] assms(1) by auto
  have pp: "pl_prompt pl = Some ?text"
    using payload_prompt[OF pl] ne by (simp only: ap) simp
  have sub: "\<exists>pl. performGeneration_payload params overridePrompt None = Inr pl
            \<and> pl_prompt pl = Some (let base = ?base in
                      if base = [] then tl (concat (map ((@) '' '') (labelTexts 1 imgs)))
                      else base @ concat (map ((@) '' '') (labelTexts 1 imgs)))"
    using pl pp by (auto simp: Let_def)
  have en: "labelTexts 1 imgs =
              concat (map (\<lambda>(i, img). case description img of
                               None \<Rightarrow> []
                             | Some d \<Rightarrow> if d = [] then []
                                         else [''(Reference '' @ showNat (i + 1) @ '': '' @ d @ '')''])
                          (enumerate 0 imgs))"
    using labelTexts_enumerate[of 0 imgs] by simp
  have dec: "\<forall>n. foldl (\<lambda>a c. 10 * a + (of_char c - 48)) 0 (showNat n) = n
                \<and> set (showNat n) \<subseteq> set ''0123456789''
                \<and> (0 < n \<longrightarrow> hd (showNat n) \<noteq> CHR ''0'')"
    using showNat_value showNat_digits showNat_no_leading_zero by blast
  have ex: "imgs = [img1, img2] \<and> description img1 = Some ''Hero'' \<and> description img2 = Some ''''
               \<and> overridePrompt = None \<and> prompt params = ''A chase''
             \<longrightarrow> (\<exists>pl. performGeneration_payload params overridePrompt None = Inr pl
                     \<and> pl_prompt pl = Some ''A chase (Reference 1: Hero)'')"
  proof (intro impI)
    assume h: "imgs = [img1, img2] \<and> description img1 = Some ''Hero'' \<and> description img2 = Some ''''
               \<and> overridePrompt = None \<and> prompt params = ''A chase''"
    then have "?text = ''A chase (Reference 1: Hero)''" by simp
    with pl pp show "\<exists>pl. performGeneration_payload params overridePrompt None = Inr pl
                     \<and> pl_prompt pl = Some ''A chase (Reference 1: Hero)''" by simp
  qed
  from sub en dec ex show ?thesis by blast
qed

theorem C3_witness:
  "\<exists>pl. performGeneration_payload
           (sampleRequest\<lparr>mode := REFERENCES_TO_VIDEO, referenceImages := Some twelveReferences\<rparr>)
           None None = Inr pl
      \<and> pl_prompt pl = Some ''A chase (Reference 1: Hero) (Reference 3: Car) (Reference 12: Rain)''"
proof -
  let ?p = "sampleRequest\<lparr>mode := REFERENCES_TO_VIDEO, referenceImages := Some twelveReferences\<rparr>"
  have m: "mode ?p \<noteq> EXTEND_VIDEO" by simp
  have r: "referenceImages ?p = Some twelveReferences" by simp
  have l: "labelTexts 1 twelveReferences \<noteq> []" using labelTexts_twelve by simp
  have b: "prompt ?p = ''A chase''" by (simp add: sampleRequest_def)
  from C3_reference_labels_appended[OF m r l, of None] obtain pl where
    pl: "performGeneration_payload ?p None None = Inr pl"
    and pp: "pl_prompt pl =
                Some (let base = (case None of
                                    None \<Rightarrow> prompt ?p
                                  | Some s \<Rightarrow> if s = [] then prompt ?p else s)
                      in if base = [] then tl (concat (map ((@) '' '') (labelTexts 1 twelveReferences)))
                         else base @ concat (map ((@) '' '') (labelTexts 1 twelveReferences)))"
    by blast
  from pp labelTexts_twelve have "pl_prompt pl
        = Some ''A chase (Reference 1: Hero) (Reference 3: Car) (Reference 12: Rain)''"
    by (simp add: b)
  with pl show ?thesis by blast
qed

text \<open>
  C7. For a FRAMES_TO_VIDEO request with no prior-video override a submission is always
  built. Its first-frame input is set exactly when there is a start frame, to the bytes
  and the type of the start frame. Its last-frame input is set exactly when the
  effective end frame is present, to the bytes and the type of that frame: the start
  frame when the looping flag is set, else the end frame.
\<close>

theorem C7_frames_to_video:
  assumes "mode params = FRAMES_TO_VIDEO"
  shows "\<exists>pl. performGeneration_payload params overridePrompt None = Inr pl
           \<and> pl_image pl =
               (case startFrame params of
                  None \<Rightarrow> None
                | Some f \<Rightarrow> Some \<lparr>imageBytes = base64 f, mimeType = file_type f\<rparr>)
           \<and> lastFrame (pl_config pl) =
               (case (if isLooping params then startFrame params else endFrame params) of
                  None \<Rightarrow> None
                | Some f \<Rightarrow> Some \<lparr>imageBytes = base64 f, mimeType = file_type f\<rparr>)
           \<and> ((lastFrame (pl_config pl) \<noteq> None)
                \<longleftrightarrow> ((if isLooping params then startFrame params else endFrame params) \<noteq> None))"
  using assms
  by (auto simp: performGeneration_payload_def toImage_def Let_def split: option.splits if_splits)

theorem C7_witness:
  "(\<exists>pl. performGeneration_payload
            (sampleRequest\<lparr>mode := FRAMES_TO_VIDEO, startFrame := Some firstFrame,
               endFrame := Some finalFrame, isLooping := False\<rparr>) None None = Inr pl
       \<and> pl_image pl = Some \<lparr>imageBytes = ''Rmlyc3Q='', mimeType = ''image/png''\<rparr>
       \<and> lastFrame (pl_config pl) = Some \<lparr>imageBytes = ''RmluYWw='', mimeType = ''image/jpeg''\<rparr>)
   \<and> (\<exists>pl. performGeneration_payload
            (sampleRequest\<lparr>mode := FRAMES_TO_VIDEO, startFrame := Some firstFrame,
               endFrame := Some finalFrame, isLooping := True\<rparr>) None None = Inr pl
       \<and> pl_image pl = Some \<lparr>imageBytes = ''Rmlyc3Q='', mimeType = ''image/png''\<rparr>
       \<and> lastFrame (pl_config pl) = Some \<lparr>imageBytes = ''Rmlyc3Q='', mimeType = ''image/png''\<rparr>)
   \<and> (\<exists>pl. performGeneration_payload
            (sampleRequest\<lparr>mode := FRAMES_TO_VIDEO, startFrame := Some firstFrame,
               endFrame := None, isLooping := False\<rparr>) None None = Inr pl
       \<and> pl_image pl = Some \<lparr>imageBytes = ''Rmlyc3Q='', mimeType = ''image/png''\<rparr>
       \<and> lastFrame (pl_config pl) = None)"
proof -
  have run: "\<exists>pl. performGeneration_payload
            (sampleRequest\<lparr>mode := FRAMES_TO_VIDEO, startFrame := Some firstFrame,
               endFrame := e, isLooping := l\<rparr>) None None = Inr pl
       \<and> pl_image pl = Some \<lparr>imageBytes = ''Rmlyc3Q='', mimeType = ''image/png''\<rparr>
       \<and> lastFrame (pl_config pl) =
           (case (if l then Some firstFrame else e) of
              None \<Rightarrow> None
            | Some f \<Rightarrow> Some \<lparr>imageBytes = base64 f, mimeType = file_type f\<rparr>)" for e l
  proof -
    let ?p = "sampleRequest\<lparr>mode := FRAMES_TO_VIDEO, startFrame := Some firstFrame,
               endFrame := e, isLooping := l\<rparr>"
    have m: "mode ?p = FRAMES_TO_VIDEO" by simp
    have s: "startFrame ?p = Some firstFrame" "isLooping ?p = l" "endFrame ?p = e" by simp_all
    have f: "base64 firstFrame = ''Rmlyc3Q=''" "file_type firstFrame = ''image/png''"
      by (simp_all add: firstFrame_def)
    from C7_frames_to_video[OF m, of None] obtain pl where
      "performGeneration_payload ?p None None = Inr pl"
      "pl_image pl =
         (case startFrame ?p of
            None \<Rightarrow> None
          | Some f \<Rightarrow> Some \<lparr>imageBytes = base64 f, mimeType = file_type f\<rparr>)"
      "lastFrame (pl_config pl) =
         (case (if isLooping ?p then startFrame ?p else endFrame ?p) of
            None \<Rightarrow> None
          | Some f \<Rightarrow> Some \<lparr>imageBytes = base64 f, mimeType = file_type f\<rparr>)"
      by blast
    then show ?thesis by (simp only: s option.case f) blast
  qed
  have g: "base64 finalFrame = ''RmluYWw=''" "file_type finalFrame = ''image/jpeg''"
    "base64 firstFrame = ''Rmlyc3Q=''" "file_type firstFrame = ''image/png''"
    by (simp_all add: finalFrame_def firstFrame_def)
  have one: "\<exists>pl. performGeneration_payload
            (sampleRequest\<lparr>mode := FRAMES_TO_VIDEO, startFrame := Some firstFrame,
               endFrame := Some finalFrame, isLooping := False\<rparr>) None None = Inr pl
       \<and> pl_image pl = Some \<lparr>imageBytes = ''Rmlyc3Q='', mimeType = ''image/png''\<rparr>
       \<and> lastFrame (pl_config pl) = Some \<lparr>imageBytes = ''RmluYWw='', mimeType = ''image/jpeg''\<rparr>"
    using run[where e = "Some finalFrame" and l = False] by (simp add: g)
  have two: "\<exists>pl. performGeneration_payload
            (sampleRequest\<lparr>mode := FRAMES_TO_VIDEO, startFrame := Some firstFrame,
               endFrame := Some finalFrame, isLooping := True\<rparr>) None None = Inr pl
       \<and> pl_image pl = Some \<lparr>imageBytes = ''Rmlyc3Q='', mimeType = ''image/png''\<rparr>
       \<and> lastFrame (pl_config pl) = Some \<lparr>imageBytes = ''Rmlyc3Q='', mimeType = ''image/png''\<rparr>"
    using run[where e = "Some finalFrame" and l = True] by (simp add: g)
  have three: "\<exists>pl. performGeneration_payload
            (sampleRequest\<lparr>mode := FRAMES_TO_VIDEO, startFrame := Some firstFrame,
               endFrame := None, isLooping := False\<rparr>) None None = Inr pl
       \<and> pl_image pl = Some \<lparr>imageBytes = ''Rmlyc3Q='', mimeType = ''image/png''\<rparr>
       \<and> lastFrame (pl_config pl) = None"
    using run[where e = None and l = False] by simp
  from one two three show ?thesis by blast
qed



text \<open>
  C10. A build that is not an extension and whose mode is neither REFERENCES_TO_VIDEO
  nor STORY_MODE with reference images always yields a submission. The submission has no
  reference-image list (the only place where the reference images and the style image
  are put), whatever \<^verbatim>\<open>referenceImages\<close> and \<^verbatim>\<open>styleImage\<close> of the request are, and
  outside FRAMES_TO_VIDEO it has no image input at all. The label text of every
  reference image with a non-empty label is still appended to its prompt, each behind
  one space.
\<close>

theorem C10_references_dropped_labels_kept:
  assumes "mode params \<noteq> EXTEND_VIDEO"
    and "mode params \<noteq> REFERENCES_TO_VIDEO"
    and "\<not> (mode params = STORY_MODE \<and> hasReferenceImages params)"
  shows "\<exists>pl. performGeneration_payload params overridePrompt None = Inr pl
           \<and> cfg_referenceImages (pl_config pl) = None
           \<and> (mode params \<noteq> FRAMES_TO_VIDEO \<longrightarrow>
                 pl_image pl = None \<and> lastFrame (pl_config pl) = None)
           \<and> (\<forall>imgs. referenceImages params = Some imgs \<and> labelTexts 1 imgs \<noteq> [] \<longrightarrow>
                 pl_prompt pl =
                   Some (let base = (case overridePrompt of
                                       None \<Rightarrow> prompt params
                                     | Some s \<Rightarrow> if s = [] then prompt params else s)
                         in if base = [] then tl (concat (map ((@) '' '') (labelTexts 1 imgs)))
                            else base @ concat (map ((@) '' '') (labelTexts 1 imgs))))"
proof -
  obtain pl where pl: "performGeneration_payload params overridePrompt None = Inr pl"
    using payload_total[of params None overridePrompt] assms(1) by auto
  have refs: "cfg_referenceImages (pl_config pl) = None"
    using pl assms
    by (auto simp: performGeneration_payload_def Let_def split: option.splits if_splits)
  have img: "mode params \<noteq> FRAMES_TO_VIDEO \<longrightarrow>
                 pl_image pl = None \<and> lastFrame (pl_config pl) = None"
    using pl assms
    by (auto simp: performGeneration_payload_def Let_def split: option.splits if_splits)
  have base: "basePrompt params overridePrompt
                = (case overridePrompt of
                     None \<Rightarrow> prompt params
                   | Some s \<Rightarrow> if s = [] then prompt params else s)"
    by (simp add: basePrompt_def split: option.splits)
  have "pl_prompt pl =
          Some (let base = (case overridePrompt of
                              None \<Rightarrow> prompt params
                            | Some s \<Rightarrow> if s = [] then prompt params else s)
                in if base = [] then tl (concat (map ((@) '' '') (labelTexts 1 imgs)))
                   else base @ concat (map ((@) '' '') (labelTexts 1 imgs)))"
    if h: "referenceImages params = Some imgs \<and> labelTexts 1 imgs \<noteq> []" for imgs
  proof -
    let ?base = "case overridePrompt of
                   None \<Rightarrow> prompt params
                 | Some s \<Rightarrow> if s = [] then prompt params else s"
    let ?text = "if ?base = [] then tl (concat (map ((@) '' '') (labelTexts 1 imgs)))
                 else ?base @ concat (map ((@) '' '') (labelTexts 1 imgs))"
    have ap: "activePrompt params overridePrompt None = ?text"
      using assms(1) h by (simp add: activePrompt_spaced base Let_def)
    have ne: "?text \<noteq> []"
      using spaced_text_nonempty[of "labelTexts 1 imgs"] h labelTexts_nonempty by blast
    have "pl_prompt pl = Some ?text"
      using payload_prompt[OF pl] ne by (simp only: ap) simp
    then show ?thesis by (simp add: Let_def)
  qed
  with pl refs img show ?thesis by blast
qed

theorem C10_witness:
  "\<exists>pl. performGeneration_payload
           (sampleRequest\<lparr>referenceImages := Some twelveReferences,
              styleImage := Some finalFrame\<rparr>) None None = Inr pl
      \<and> cfg_referenceImages (pl_config pl) = None
      \<and> pl_image pl = None
      \<and> pl_prompt pl = Some ''A chase (Reference 1: Hero) (Reference 3: Car) (Reference 12: Rain)''"
proof -
  let ?p = "sampleRequest\<lparr>referenceImages := Some twelveReferences,
              styleImage := Some finalFrame\<rparr>"
  have m: "mode ?p \<noteq> EXTEND_VIDEO" "mode ?p \<noteq> REFERENCES_TO_VIDEO"
    "\<not> (mode ?p = STORY_MODE \<and> hasReferenceImages ?p)"
    by (simp_all add: sampleRequest_def)
  have f: "mode ?p \<noteq> FRAMES_TO_VIDEO" by (simp add: sampleRequest_def)
  have r: "referenceImages ?p = Some twelveReferences \<and> labelTexts 1 twelveReferences \<noteq> []"
    using labelTexts_twelve by simp
  have b: "prompt ?p = ''A chase''" by (simp add: sampleRequest_def)
  from C10_references_dropped_labels_kept[OF m, of None] obtain pl where
    pl: "performGeneration_payload ?p None None = Inr pl"
      "cfg_referenceImages (pl_config pl) = None"
      "mode ?p \<noteq> FRAMES_TO_VIDEO \<longrightarrow> pl_image pl = None \<and> lastFrame (pl_config pl) = None"
      "\<forall>imgs. referenceImages ?p = Some imgs \<and> labelTexts 1 imgs \<noteq> [] \<longrightarrow>
         pl_prompt pl =
           Some (let base = (case None of
                               None \<Rightarrow> prompt ?p
                             | Some s \<Rightarrow> if s = [] then prompt ?p else s)
                 in if base = [] then tl (concat (map ((@) '' '') (labelTexts 1 imgs)))
                    else base @ concat (map ((@) '' '') (labelTexts 1 imgs)))"
    by blast
  from pl(4)[rule_format, OF r] labelTexts_twelve
  have "pl_prompt pl = Some ''A chase (Reference 1: Hero) (Reference 3: Car) (Reference 12: Rain)''"
    by (simp add: b)
  with pl(1,2) pl(3) f show ?thesis by blast
qed

section \<open>The remote job cycle\<close>

lemma pollEvents_simps [simp]:
  "pollEvents [] = []"
  "pollEvents (x # xs) = Sleep 10000 # Poll x # pollEvents xs"
  by (simp_all add: pollEvents_def)

lemma submissions_append [simp]: "submissions (xs @ ys) = submissions xs @ submissions ys"
  by (simp add: submissions_def)

lemma fetches_append [simp]: "fetches (xs @ ys) = fetches xs @ fetches ys"
  by (simp add: fetches_def)

lemma polls_append [simp]: "polls (xs @ ys) = polls xs @ polls ys"
  by (simp add: polls_def)

lemma sleeps_append [simp]: "sleeps (xs @ ys) = sleeps xs @ sleeps ys"
  by (simp add: sleeps_def)

lemma projections_Nil [simp]:
  "submissions [] = []" "fetches [] = []" "polls [] = []" "sleeps [] = []"
  by (simp_all add: submissions_def fetches_def polls_def sleeps_def)

lemma submissions_Cons [simp]:
  "submissions (Submit p # t) = p # submissions t"
  "submissions (Sleep ms # t) = submissions t"
  "submissions (Poll operation # t) = submissions t"
  "submissions (Fetch u # t) = submissions t"
  by (simp_all add: submissions_def)

lemma fetches_Cons [simp]:
  "fetches (Submit p # t) = fetches t"
  "fetches (Sleep ms # t) = fetches t"
  "fetches (Poll operation # t) = fetches t"
  "fetches (Fetch u # t) = u # fetches t"
  by (simp_all add: fetches_def)

lemma polls_Cons [simp]:
  "polls (Submit p # t) = polls t"
  "polls (Sleep ms # t) = polls t"
  "polls (Poll operation # t) = operation # polls t"
  "polls (Fetch u # t) = polls t"
  by (simp_all add: polls_def)

lemma sleeps_Cons [simp]:
  "sleeps (Submit p # t) = sleeps t"
  "sleeps (Sleep ms # t) = ms # sleeps t"
  "sleeps (Poll operation # t) = sleeps t"
  "sleeps (Fetch u # t) = sleeps t"
  by (simp_all add: sleeps_def)

lemma pollEvents_projections [simp]:
  "submissions (pollEvents ops) = []"
  "fetches (pollEvents ops) = []"
  "polls (pollEvents ops) = ops"
  "sleeps (pollEvents ops) = replicate (length ops) 10000"
  by (induction ops) simp_all

text \<open>
  Whenever the polling loop returns, it has added only waits and status queries to the
  trace, one wait before each query, and it returns a completed handle or the failure of
  a query.
\<close>

lemma poll_trace_aux:
  assumes "performGeneration_poll env operation w = Some y"
  shows "\<exists>ops. trace (snd y) = trace w @ pollEvents ops \<and> pollOutcome (fst y)"
proof (rule performGeneration_poll.raw_induct
    [where P = "\<lambda>env operation w y.
                  \<exists>ops. trace (snd y) = trace w @ pollEvents ops \<and> pollOutcome (fst y)",
     OF _ assms])
  fix poll :: "'a Remote \<Rightarrow> Operation \<Rightarrow> 'a World \<Rightarrow> ((error + Operation) \<times> 'a World) option"
  fix env operation w y
  assume IH: "\<And>env operation w y. poll env operation w = Some y \<Longrightarrow>
     \<exists>ops. trace (snd y) = trace w @ pollEvents ops \<and> pollOutcome (fst y)"
  assume body: "(if op_done operation then Some (Inr operation, w)
      else let w1 = w\<lparr>trace := trace w @ [Sleep 10000]\<rparr>;
               rs = getVideosOperation env operation (remote w1);
               w2 = w1\<lparr>remote := snd rs, trace := trace w1 @ [Poll operation]\<rparr>
           in case fst rs of Inl msg \<Rightarrow> Some (Inl (RemoteFailure msg), w2)
              | Inr operation' \<Rightarrow> poll env operation' w2) = Some y"
  show "\<exists>ops. trace (snd y) = trace w @ pollEvents ops \<and> pollOutcome (fst y)"
  proof (cases "op_done operation")
    case True
    with body have "y = (Inr operation, w)" by auto
    with True show ?thesis by (intro exI[of _ "[]"]) (simp add: pollOutcome_def)
  next
    case False
    define w1 where "w1 = w\<lparr>trace := trace w @ [Sleep 10000]\<rparr>"
    define rs where "rs = getVideosOperation env operation (remote w1)"
    define w2 where "w2 = w1\<lparr>remote := snd rs, trace := trace w1 @ [Poll operation]\<rparr>"
    from body False have step:
      "(case fst rs of Inl msg \<Rightarrow> Some (Inl (RemoteFailure msg), w2)
        | Inr operation' \<Rightarrow> poll env operation' w2) = Some y"
      by (simp add: Let_def w1_def rs_def w2_def cong: sum.case_cong)
    have t2: "trace w2 = trace w @ pollEvents [operation]"
      by (simp add: w2_def w1_def)
    show ?thesis
    proof (cases "fst rs")
      case (Inl msg)
      with step have "y = (Inl (RemoteFailure msg), w2)" by auto
      with t2 show ?thesis by (intro exI[of _ "[operation]"]) (simp add: pollOutcome_def)
    next
      case (Inr operation')
      with step have "poll env operation' w2 = Some y" by simp
      from IH[OF this] obtain ops where
        "trace (snd y) = trace w2 @ pollEvents ops" "pollOutcome (fst y)"
        by blast
      with t2 show ?thesis by (intro exI[of _ "operation # ops"]) simp
    qed
  qed
qed

lemma poll_trace:
  "performGeneration_poll env operation w = Some (x, w') \<Longrightarrow>
     \<exists>ops. trace w' = trace w @ pollEvents ops \<and> pollOutcome x"
  using poll_trace_aux[of env operation w "(x, w')"] by simp

text \<open>
  The loop has no bound on the number of queries: when the remote side answers \<open>n\<close>
  queries with a handle that is not done and the next one with a handle that is, the
  loop returns that handle after exactly \<open>n + 1\<close> queries, for every \<open>n\<close>.
\<close>

lemma poll_progress:
  assumes "pollScript env (Suc n) operation (remote w) = map Inr ops"
    and "\<not> op_done operation" and "\<forall>i<n. \<not> op_done (ops ! i)" and "op_done (ops ! n)"
  shows "\<exists>w'. performGeneration_poll env operation w = Some (Inr (ops ! n), w')
           \<and> trace w' = trace w @ pollEvents (operation # take n ops)"
  using assms
proof (induction n arbitrary: operation w ops)
  case 0
  then obtain o1 where o1: "fst (getVideosOperation env operation (remote w)) = Inr o1" "ops = [o1]"
    by (auto split: sum.splits)
  with 0 have "op_done o1" by simp
  with o1 0(2) show ?case
    by (subst performGeneration_poll.simps)
       (simp add: Let_def performGeneration_poll.simps[of env o1])
next
  case (Suc n)
  then obtain o1 rest where o1: "fst (getVideosOperation env operation (remote w)) = Inr o1"
    "ops = o1 # rest"
    "pollScript env (Suc n) o1 (snd (getVideosOperation env operation (remote w))) = map Inr rest"
    by (auto split: sum.splits)
  define w2 where "w2 = w\<lparr>trace := trace w @ [Sleep 10000],
     remote := snd (getVideosOperation env operation (remote w)),
     trace := (trace w @ [Sleep 10000]) @ [Poll operation]\<rparr>"
  have r2: "remote w2 = snd (getVideosOperation env operation (remote w))" by (simp add: w2_def)
  have nd: "\<not> op_done o1" using Suc.prems(3) o1(2) by auto
  have a: "\<forall>i<n. \<not> op_done (rest ! i)" using Suc.prems(3) o1(2) by auto
  have b: "op_done (rest ! n)" using Suc.prems(4) o1(2) by simp
  from Suc.IH[of o1 w2 rest] o1(3) r2 nd a b obtain w' where
    w': "performGeneration_poll env o1 w2 = Some (Inr (rest ! n), w')"
        "trace w' = trace w2 @ pollEvents (o1 # take n rest)" by auto
  have "performGeneration_poll env operation w = performGeneration_poll env o1 w2"
    using Suc.prems(2) o1(1)
    by (subst performGeneration_poll.simps) (simp add: Let_def w2_def)
  with w' o1(2) show ?case by (simp add: w2_def)
qed

text \<open>The fetching phase makes at most one fetch, and none when it fails on the assets.\<close>

lemma fetch_trace:
  "performGeneration_fetch env operation w = (x, w') \<Longrightarrow>
     (trace w' = trace w \<and> (\<exists>e. x = Inl e \<and> e \<noteq> ChainBroken)) \<or>
     (\<exists>url. trace w' = trace w @ [Fetch url] \<and> x \<noteq> Inl ChainBroken)"
  by (auto simp: performGeneration_fetch_def Let_def
           split: option.splits list.splits sum.splits if_splits)

lemma fetch_no_assets:
  "response operation = Some resp \<Longrightarrow>
   generatedVideos resp = None \<or> generatedVideos resp = Some [] \<Longrightarrow>
     performGeneration_fetch env operation w = (Inl NoAssetsProduced, w)"
  by (auto simp: performGeneration_fetch_def)

lemma fetch_locator:
  "response operation = Some resp \<Longrightarrow> generatedVideos resp = Some (gv # gvs) \<Longrightarrow>
     (fst (performGeneration_fetch env operation w) = Inl MissingAssetLocator) = (\<not> hasLocator gv)"
  by (auto simp: performGeneration_fetch_def hasLocator_def Let_def
           split: option.splits sum.splits)

lemma fetch_no_locator:
  "response operation = Some resp \<Longrightarrow> generatedVideos resp = Some (gv # gvs) \<Longrightarrow>
   \<not> hasLocator gv \<Longrightarrow>
     performGeneration_fetch env operation w = (Inl MissingAssetLocator, w)"
  by (auto simp: performGeneration_fetch_def hasLocator_def Let_def
           split: option.splits sum.splits)

lemma fetch_one:
  "response operation = Some resp \<Longrightarrow> generatedVideos resp = Some (gv # gvs) \<Longrightarrow>
   video gv = Some v \<Longrightarrow> uri v = Some u \<Longrightarrow> u \<noteq> [] \<Longrightarrow> decodeURIComponent env u = Inr url \<Longrightarrow>
     trace (snd (performGeneration_fetch env operation w))
       = trace w @ [Fetch (url @ ''&key='' @ apiKeyText env)]"
  by (auto simp: performGeneration_fetch_def Let_def split: option.splits sum.splits)

text \<open>The cycle once the submission is accepted and the polling loop has returned a handle.\<close>

lemma cycle_after_poll:
  assumes "fst (generateVideos env payload (remote w)) = Inr operation0"
    and "performGeneration_poll env operation0
           (w\<lparr>remote := snd (generateVideos env payload (remote w)),
              trace := trace w @ [Submit payload]\<rparr>) = Some (Inr operation, w2)"
  shows "performGeneration_cycle env payload w = Some (performGeneration_fetch env operation w2)"
  using assms by (simp add: performGeneration_cycle_def Let_def)

text \<open>A cycle that returns has made exactly one submission, the payload it was given.\<close>

lemma cycle_trace:
  assumes "performGeneration_cycle env payload w = Some (x, w')"
  shows "submissions (trace w') = submissions (trace w) @ [payload] \<and> x \<noteq> Inl ChainBroken"
proof -
  define rs where "rs = generateVideos env payload (remote w)"
  define w1 where "w1 = w\<lparr>remote := snd rs, trace := trace w @ [Submit payload]\<rparr>"
  have t1: "trace w1 = trace w @ [Submit payload]" by (simp add: w1_def)
  show ?thesis
  proof (cases "fst rs")
    case (Inl msg)
    with assms have "x = Inl (RemoteFailure msg)" "w' = w1"
      by (simp_all add: performGeneration_cycle_def Let_def rs_def w1_def)
    with t1 show ?thesis by simp
  next
    case (Inr operation0)
    with assms have c:
      "(case performGeneration_poll env operation0 w1 of
          None \<Rightarrow> None
        | Some (Inl e, w2) \<Rightarrow> Some (Inl e, w2)
        | Some (Inr operation', w2) \<Rightarrow> Some (performGeneration_fetch env operation' w2))
       = Some (x, w')"
      by (simp add: performGeneration_cycle_def Let_def rs_def w1_def)
    then obtain y w2 where p: "performGeneration_poll env operation0 w1 = Some (y, w2)"
      by (cases "performGeneration_poll env operation0 w1") auto
    from poll_trace[OF p] obtain ops where
      t2: "trace w2 = trace w1 @ pollEvents ops" and out: "pollOutcome y" by blast
    show ?thesis
    proof (cases y)
      case (Inl e)
      with c p have "x = Inl e" "w' = w2" by simp_all
      moreover from out Inl have "e \<noteq> ChainBroken" by (auto simp: pollOutcome_def)
      ultimately show ?thesis using t1 t2 by simp
    next
      case (Inr operation')
      with c p have "performGeneration_fetch env operation' w2 = (x, w')" by simp
      from fetch_trace[OF this] t1 t2 show ?thesis by auto
    qed
  qed
qed

lemma performGeneration_success:
  assumes "performGeneration env params overridePrompt overrideVideoInput w = Some (Inr r, w')"
  shows "\<exists>pl. performGeneration_payload params overridePrompt overrideVideoInput = Inr pl
           \<and> submissions (trace w') = submissions (trace w) @ [pl]"
proof (cases "performGeneration_payload params overridePrompt overrideVideoInput")
  case (Inl e)
  with assms show ?thesis by (simp add: performGeneration_def)
next
  case (Inr pl)
  with assms have "performGeneration_cycle env pl w = Some (Inr r, w')"
    by (simp add: performGeneration_def)
  from cycle_trace[OF this] Inr show ?thesis by simp
qed

lemma payload_not_ChainBroken:
  "performGeneration_payload params overridePrompt overrideVideoInput \<noteq> Inl ChainBroken"
  by (simp add: performGeneration_payload_def Let_def split: option.splits)

lemma performGeneration_not_ChainBroken:
  "performGeneration env params overridePrompt overrideVideoInput w \<noteq> Some (Inl ChainBroken, w')"
proof (cases "performGeneration_payload params overridePrompt overrideVideoInput")
  case (Inl e)
  with payload_not_ChainBroken[of params overridePrompt overrideVideoInput]
  show ?thesis by (auto simp: performGeneration_def)
next
  case (Inr pl)
  with cycle_trace[of env pl w "Inl ChainBroken" w'] show ?thesis
    by (auto simp: performGeneration_def)
qed

text \<open>
  C4. For an EXTEND_VIDEO request without \<^verbatim>\<open>inputVideoObject\<close> and without a
  prior-video override, \<^verbatim>\<open>performGeneration\<close> fails with MissingExtensionSource and
  returns the world as it was: the trace has no new submission, status query or fetch,
  and the state of the remote side is untouched. \<^verbatim>\<open>generateVideo\<close> reaches
  \<^verbatim>\<open>performGeneration\<close> once the client is constructed and then fails in the same
  way; when the constructor throws, it fails with what the constructor threw; in both
  cases the world is returned as it was.
\<close>

theorem C4_missing_extension_source:
  assumes "mode params = EXTEND_VIDEO" and "inputVideoObject params = None"
  shows "performGeneration env params overridePrompt None w = Some (Inl MissingExtensionSource, w)
         \<and> generateVideo env params w =
             (case GoogleGenAI env (API_KEY env) of
                Inl msg \<Rightarrow> Some (Inl (RemoteFailure msg), w)
              | Inr ai \<Rightarrow> Some (Inl MissingExtensionSource, w))"
proof -
  have "performGeneration_payload params op None = Inl MissingExtensionSource" for op
    using assms by (simp add: performGeneration_payload_def Let_def)
  then have "performGeneration env params op None w = Some (Inl MissingExtensionSource, w)" for op
    by (simp add: performGeneration_def)
  then show ?thesis
    using assms(1) by (simp add: generateVideo_def split: option.splits sum.splits)
qed

theorem C4_witness:
  "performGeneration (spyRemote 3 oneAsset) (sampleRequest\<lparr>mode := EXTEND_VIDEO\<rparr>) None None
     freshWorld = Some (Inl MissingExtensionSource, freshWorld)
   \<and> generateVideo (spyRemote 3 oneAsset) (sampleRequest\<lparr>mode := EXTEND_VIDEO\<rparr>) freshWorld
     = Some (Inl MissingExtensionSource, freshWorld)
   \<and> trace freshWorld = []"
proof -
  have "mode (sampleRequest\<lparr>mode := EXTEND_VIDEO\<rparr>) = EXTEND_VIDEO" by simp
  moreover have "inputVideoObject (sampleRequest\<lparr>mode := EXTEND_VIDEO\<rparr>) = None"
    by (simp add: sampleRequest_def)
  moreover have "GoogleGenAI (spyRemote 3 oneAsset) (API_KEY (spyRemote 3 oneAsset)) = Inr ()"
    by (simp add: spyRemote_def)
  ultimately show ?thesis
    using C4_missing_extension_source
      [of "sampleRequest\<lparr>mode := EXTEND_VIDEO\<rparr>" "spyRemote 3 oneAsset" None freshWorld]
    by (simp add: freshWorld_def)
qed

text \<open>
  C5. Take a cycle whose submission was accepted and whose polling loop ended with a
  completed handle that carries a response. If the list of generated assets is absent or
  empty, the cycle fails with NoAssetsProduced and has made no fetch. If the list is not
  empty, the cycle returns, it fails with MissingAssetLocator exactly when the first
  descriptor has no video or its video has no non-empty URI, it makes no fetch in that
  case, and when the URI of the first descriptor decodes, its fetch is the one of that
  location.
\<close>

theorem C5_assets_checked_before_fetch:
  assumes "fst (generateVideos env payload (remote w)) = Inr operation0"
    and "performGeneration_poll env operation0
           (w\<lparr>remote := snd (generateVideos env payload (remote w)),
              trace := trace w @ [Submit payload]\<rparr>) = Some (Inr operation, w2)"
    and "response operation = Some resp"
  shows "(generatedVideos resp = None \<or> generatedVideos resp = Some [] \<longrightarrow>
            performGeneration_cycle env payload w = Some (Inl NoAssetsProduced, w2)
            \<and> fetches (trace w2) = fetches (trace w))
         \<and> (\<forall>gv gvs. generatedVideos resp = Some (gv # gvs) \<longrightarrow>
              (\<exists>x w3. performGeneration_cycle env payload w = Some (x, w3)
                 \<and> ((x = Inl MissingAssetLocator) \<longleftrightarrow> \<not> hasLocator gv)
                 \<and> (\<not> hasLocator gv \<longrightarrow> fetches (trace w3) = fetches (trace w))
                 \<and> (\<forall>v u url. video gv = Some v \<and> uri v = Some u \<and> u \<noteq> []
                        \<and> decodeURIComponent env u = Inr url \<longrightarrow>
                      fetches (trace w3)
                        = fetches (trace w) @ [url @ ''&key='' @ apiKeyText env])))"
proof -
  note cyc = cycle_after_poll[OF assms(1,2)]
  from poll_trace[OF assms(2)] obtain ops where
    "trace w2 = (trace w @ [Submit payload]) @ pollEvents ops" by auto
  then have f2: "fetches (trace w2) = fetches (trace w)" by simp
  have none: "generatedVideos resp = None \<or> generatedVideos resp = Some [] \<longrightarrow>
            performGeneration_cycle env payload w = Some (Inl NoAssetsProduced, w2)
            \<and> fetches (trace w2) = fetches (trace w)"
    using cyc fetch_no_assets[OF assms(3), of env w2] f2 by auto
  have some: "\<exists>x w3. performGeneration_cycle env payload w = Some (x, w3)
                 \<and> ((x = Inl MissingAssetLocator) \<longleftrightarrow> \<not> hasLocator gv)
                 \<and> (\<not> hasLocator gv \<longrightarrow> fetches (trace w3) = fetches (trace w))
                 \<and> (\<forall>v u url. video gv = Some v \<and> uri v = Some u \<and> u \<noteq> []
                        \<and> decodeURIComponent env u = Inr url \<longrightarrow>
                      fetches (trace w3)
                        = fetches (trace w) @ [url @ ''&key='' @ apiKeyText env])"
    if gv: "generatedVideos resp = Some (gv # gvs)" for gv gvs
  proof -
    obtain x w3 where r: "performGeneration_fetch env operation w2 = (x, w3)"
      by (cases "performGeneration_fetch env operation w2") auto
    have a: "(x = Inl MissingAssetLocator) \<longleftrightarrow> \<not> hasLocator gv"
      using fetch_locator[OF assms(3) gv, of env w2] r by simp
    have b: "\<not> hasLocator gv \<longrightarrow> fetches (trace w3) = fetches (trace w)"
      using fetch_no_locator[OF assms(3) gv, of env w2] r f2 by auto
    have c: "\<forall>v u url. video gv = Some v \<and> uri v = Some u \<and> u \<noteq> []
                        \<and> decodeURIComponent env u = Inr url \<longrightarrow>
                      fetches (trace w3)
                        = fetches (trace w) @ [url @ ''&key='' @ apiKeyText env]"
      using fetch_one[OF assms(3) gv, of _ _ env _ w2] r f2 by auto
    from cyc r a b c show ?thesis by auto
  qed
  from none some show ?thesis by blast
qed

lemma spy_generateVideos:
  "fst (generateVideos (spyRemote n assets) samplePayload s) = Inr (pendingJob ''A chase'')"
  "snd (generateVideos (spyRemote n assets) samplePayload s) = 0"
  by (simp_all add: spyRemote_def samplePayload_def pendingJob_def)

lemma spy_getVideosOperation:
  "getVideosOperation (spyRemote n assets) (pendingJob name) s =
     (Inr (if s < n then pendingJob name else finishedJob name (assets name)), Suc s)"
  by (simp add: spyRemote_def pendingJob_def finishedJob_def)

lemma spy_misc [simp]:
  "\<not> op_done (pendingJob name)" "op_done (finishedJob name videos)"
  "response (finishedJob name videos) = Some \<lparr>generatedVideos = videos\<rparr>"
  "decodeURIComponent (spyRemote n assets) = Inr"
  "apiKeyText (spyRemote n assets) = ''k''"
  by (simp_all add: pendingJob_def finishedJob_def spyRemote_def apiKeyText_def)

theorem C5_witness:
  "(\<exists>w2. performGeneration_cycle (spyRemote 0 (\<lambda>name. Some [])) samplePayload freshWorld
            = Some (Inl NoAssetsProduced, w2) \<and> fetches (trace w2) = [])
   \<and> (\<exists>w3. performGeneration_cycle (spyRemote 0 (\<lambda>name. Some [\<lparr>video = None\<rparr>])) samplePayload
              freshWorld = Some (Inl MissingAssetLocator, w3) \<and> fetches (trace w3) = [])"
proof -
  have f0: "fetches (trace freshWorld) = []" by (simp add: freshWorld_def)
  have first: "\<exists>w2. performGeneration_cycle (spyRemote 0 (\<lambda>name. videos)) samplePayload freshWorld
            = Some (Inl e, w2) \<and> fetches (trace w2) = []"
    if v: "videos = Some [] \<and> e = NoAssetsProduced
           \<or> videos = Some [\<lparr>video = None\<rparr>] \<and> e = MissingAssetLocator" for videos e
  proof -
    let ?env = "spyRemote 0 (\<lambda>name. videos)"
    let ?w1 = "freshWorld\<lparr>remote := snd (generateVideos ?env samplePayload (remote freshWorld)),
                 trace := trace freshWorld @ [Submit samplePayload]\<rparr>"
    have s: "pollScript ?env (Suc 0) (pendingJob ''A chase'') (remote ?w1)
               = map Inr [finishedJob ''A chase'' videos]"
      by (simp add: spy_getVideosOperation spy_generateVideos)
    from poll_progress[OF s] obtain w2 where
      p: "performGeneration_poll ?env (pendingJob ''A chase'') ?w1
            = Some (Inr (finishedJob ''A chase'' videos), w2)"
      by auto
    have r: "response (finishedJob ''A chase'' videos) = Some \<lparr>generatedVideos = videos\<rparr>"
      by simp
    have l: "\<not> hasLocator \<lparr>video = None\<rparr>" by (simp add: hasLocator_def)
    from C5_assets_checked_before_fetch[OF spy_generateVideos(1) p r] v f0 l
    show ?thesis by auto
  qed
  from first[of "Some []" NoAssetsProduced] first[of "Some [\<lparr>video = None\<rparr>]" MissingAssetLocator]
  show ?thesis by simp
qed

lemma pollScript_length: "pollScript env n operation s = map Inr ops \<Longrightarrow> length ops = n"
proof (induction n arbitrary: operation s ops)
  case 0
  then show ?case by simp
next
  case (Suc n)
  then obtain o1 rest where "ops = o1 # rest"
    "pollScript env n o1 (snd (getVideosOperation env operation s)) = map Inr rest"
    by (auto split: sum.splits)
  with Suc.IH show ?case by auto
qed

text \<open>
  C6. Take a cycle whose submission is accepted with a handle that is not done, where
  the status queries report \<open>n\<close> times a handle that is not done and then a completed
  handle with one asset descriptor whose URI decodes. The cycle returns after exactly
  \<open>n + 1\<close> status queries and one fetch, with a wait of 10000 milliseconds before each
  query; this holds for every \<open>n\<close>, so the loop has no cap on its attempts. The claim's
  case is \<open>n = 3\<close>: four status queries.
\<close>

theorem C6_poll_until_done:
  assumes "fst (generateVideos env payload (remote w)) = Inr operation0"
    and "\<not> op_done operation0"
    and "pollScript env (Suc n) operation0 (snd (generateVideos env payload (remote w)))
           = map Inr ops"
    and "\<forall>i<n. \<not> op_done (ops ! i)"
    and "op_done (ops ! n)"
    and "response (ops ! n) = Some resp"
    and "generatedVideos resp = Some [gv]"
    and "video gv = Some v" and "uri v = Some u" and "u \<noteq> []"
    and "decodeURIComponent env u = Inr url"
  shows "\<exists>x w'. performGeneration_cycle env payload w = Some (x, w')
           \<and> trace w' = trace w @ Submit payload # pollEvents (operation0 # take n ops)
                          @ [Fetch (url @ ''&key='' @ apiKeyText env)]
           \<and> length (polls (trace w')) = length (polls (trace w)) + (n + 1)
           \<and> length (fetches (trace w')) = length (fetches (trace w)) + 1
           \<and> sleeps (trace w') = sleeps (trace w) @ replicate (n + 1) 10000"
proof -
  let ?w1 = "w\<lparr>remote := snd (generateVideos env payload (remote w)),
               trace := trace w @ [Submit payload]\<rparr>"
  have s: "pollScript env (Suc n) operation0 (remote ?w1) = map Inr ops"
    using assms(3) by simp
  from poll_progress[OF s assms(2,4,5)] obtain w2 where
    p: "performGeneration_poll env operation0 ?w1 = Some (Inr (ops ! n), w2)"
    and t2: "trace w2 = trace ?w1 @ pollEvents (operation0 # take n ops)"
    by blast
  obtain x w' where r: "performGeneration_fetch env (ops ! n) w2 = (x, w')"
    by (cases "performGeneration_fetch env (ops ! n) w2") auto
  have cyc: "performGeneration_cycle env payload w = Some (x, w')"
    using cycle_after_poll[OF assms(1) p] r by simp
  have len: "length ops = Suc n"
    using pollScript_length[OF assms(3)] .
  have t': "trace w' = trace w2 @ [Fetch (url @ ''&key='' @ apiKeyText env)]"
    using fetch_one[OF assms(6,7,8,9,10,11), of w2] r by simp
  have tr: "trace w' = trace w @ Submit payload # pollEvents (operation0 # take n ops)
                          @ [Fetch (url @ ''&key='' @ apiKeyText env)]"
    using t' t2 by simp
  have "length (polls (trace w')) = length (polls (trace w)) + (n + 1)"
    "length (fetches (trace w')) = length (fetches (trace w)) + 1"
    "sleeps (trace w') = sleeps (trace w) @ replicate (n + 1) 10000"
    using len by (simp_all add: tr)
  with cyc tr show ?thesis by blast
qed

theorem C6_witness:
  "\<exists>x w'. performGeneration_cycle (spyRemote 3 oneAsset) samplePayload freshWorld = Some (x, w')
     \<and> length (polls (trace w')) = 4
     \<and> fetches (trace w') = [''https://v.example/A chase&key=k'']
     \<and> sleeps (trace w') = [10000, 10000, 10000, 10000]"
proof -
  let ?env = "spyRemote 3 oneAsset"
  let ?pending = "pendingJob ''A chase''"
  let ?finished = "finishedJob ''A chase'' (oneAsset ''A chase'')"
  let ?gv = "\<lparr>video = Some (sampleVideo ''https://v.example/A chase'')\<rparr>"
  have s: "pollScript ?env (Suc 3) ?pending (snd (generateVideos ?env samplePayload (remote freshWorld)))
             = map Inr [?pending, ?pending, ?pending, ?finished]"
    by (simp add: spy_getVideosOperation spy_generateVideos eval_nat_numeral)
  have nd: "\<forall>i<3. \<not> op_done ([?pending, ?pending, ?pending, ?finished] ! i)"
    by (simp add: less_Suc_eq eval_nat_numeral)
  have d: "op_done ([?pending, ?pending, ?pending, ?finished] ! 3)" by simp
  have r: "response ([?pending, ?pending, ?pending, ?finished] ! 3)
             = Some \<lparr>generatedVideos = Some [?gv]\<rparr>"
    by (simp add: oneAsset_def)
  have g: "generatedVideos \<lparr>generatedVideos = Some [?gv]\<rparr> = Some [?gv]" by simp
  have v: "video ?gv = Some (sampleVideo ''https://v.example/A chase'')" by simp
  have u: "uri (sampleVideo ''https://v.example/A chase'') = Some ''https://v.example/A chase''"
    by (simp add: sampleVideo_def)
  have ne: "''https://v.example/A chase'' \<noteq> []" by simp
  have dec: "decodeURIComponent ?env ''https://v.example/A chase'' = Inr ''https://v.example/A chase''"
    by simp
  from C6_poll_until_done[OF spy_generateVideos(1) spy_misc(1) s nd d r g v u ne dec]
  obtain x w' where
    c: "performGeneration_cycle ?env samplePayload freshWorld = Some (x, w')"
    and t: "trace w' = trace freshWorld @ Submit samplePayload
              # pollEvents (?pending # take 3 [?pending, ?pending, ?pending, ?finished])
              @ [Fetch (''https://v.example/A chase'' @ ''&key='' @ apiKeyText ?env)]"
    by blast
  have "length (polls (trace w')) = 4"
    "fetches (trace w') = [''https://v.example/A chase&key=k'']"
    "sleeps (trace w') = [10000, 10000, 10000, 10000]"
    by (simp_all add: t freshWorld_def eval_nat_numeral)
  with c show ?thesis by blast
qed

section \<open>The story sequence\<close>

lemma storyChain_results:
  "storyChain env params ps previous w = Some (Inr rs, w') \<Longrightarrow>
     length rs = length ps
     \<and> (\<exists>pls. submissions (trace w') = submissions (trace w) @ pls
            \<and> length pls = length ps
            \<and> (\<forall>k<length ps.
                  performGeneration_payload params (Some (ps ! k))
                    (Some (res_video ((previous # rs) ! k))) = Inr (pls ! k)))"
proof (induction ps arbitrary: previous w rs)
  case Nil
  then show ?case by simp
next
  case (Cons p ps)
  from Cons.prems obtain r w1 rs' where
    step: "performGeneration env params (Some p) (Some (res_video previous)) w = Some (Inr r, w1)"
    and rest: "storyChain env params ps r w1 = Some (Inr rs', w')"
    and rs: "rs = r # rs'"
    by (auto split: option.splits sum.splits prod.splits)
  from performGeneration_success[OF step] obtain pl where
    pl: "performGeneration_payload params (Some p) (Some (res_video previous)) = Inr pl"
    and t1: "submissions (trace w1) = submissions (trace w) @ [pl]"
    by blast
  from Cons.IH[OF rest] obtain pls where
    len: "length rs' = length ps"
    and t2: "submissions (trace w') = submissions (trace w1) @ pls"
    and lp: "length pls = length ps"
    and each: "\<forall>k<length ps. performGeneration_payload params (Some (ps ! k))
                    (Some (res_video ((r # rs') ! k))) = Inr (pls ! k)"
    by blast
  have "\<forall>k<length (p # ps). performGeneration_payload params (Some ((p # ps) ! k))
                    (Some (res_video ((previous # rs) ! k))) = Inr ((pl # pls) ! k)"
  proof (intro allI impI)
    fix k assume "k < length (p # ps)"
    then show "performGeneration_payload params (Some ((p # ps) ! k))
                    (Some (res_video ((previous # rs) ! k))) = Inr ((pl # pls) ! k)"
      using pl each rs by (cases k) auto
  qed
  moreover have "submissions (trace w') = submissions (trace w) @ (pl # pls)"
    using t1 t2 by simp
  ultimately show ?case using len lp rs
    by (intro conjI exI[of _ "pl # pls"]) simp_all
qed

text \<open>
  From an index after the first on, the loop of \<^verbatim>\<open>generateVideo\<close> does what the chain
  of the specification does on the remaining prompts, and keeps the last result.
\<close>

lemma storyLoop_chain:
  "0 < i \<Longrightarrow>
     storyLoop env params prompts i (Some previous) w =
       (case storyChain env params (drop i prompts) previous w of
          None \<Rightarrow> None
        | Some (Inl e, w') \<Rightarrow> Some (Inl e, w')
        | Some (Inr rs, w') \<Rightarrow> Some (Inr (Some (last (previous # rs))), w'))"
proof (induction "length prompts - i" arbitrary: i previous w)
  case 0
  then show ?case by (subst storyLoop.simps) simp
next
  case (Suc n)
  then have lt: "i < length prompts" by simp
  then have dr: "drop i prompts = prompts ! i # drop (Suc i) prompts"
    by (simp add: Cons_nth_drop_Suc)
  have st: "storyStep env params prompts i (Some previous) w =
              performGeneration env params (Some (prompts ! i)) (Some (res_video previous)) w"
    using Suc.prems by (simp add: storyStep_def)
  have n: "n = length prompts - Suc i" using Suc.hyps(2) by simp
  show ?case
  proof (cases "performGeneration env params (Some (prompts ! i)) (Some (res_video previous)) w")
    case None
    with st lt dr show ?thesis by (subst storyLoop.simps) simp
  next
    case (Some y)
    obtain x w1 where y: "y = (x, w1)" by (cases y)
    show ?thesis
    proof (cases x)
      case (Inl e)
      with Some y st lt dr show ?thesis by (subst storyLoop.simps) simp
    next
      case (Inr r)
      have "storyLoop env params prompts i (Some previous) w
              = storyLoop env params prompts (Suc i) (Some r) w1"
        using Some y Inr st lt by (subst storyLoop.simps) simp
      also have "\<dots> = (case storyChain env params (drop (Suc i) prompts) r w1 of
          None \<Rightarrow> None
        | Some (Inl e, w') \<Rightarrow> Some (Inl e, w')
        | Some (Inr rs, w') \<Rightarrow> Some (Inr (Some (last (r # rs))), w'))"
        using Suc.hyps(1)[OF n] by simp
      finally show ?thesis using Some y Inr dr
        by (auto split: option.splits sum.splits prod.splits)
    qed
  qed
qed

lemma story_first_params:
  "mode params = STORY_MODE \<Longrightarrow> params\<lparr>mode := STORY_MODE, prompt := p\<rparr> = params\<lparr>prompt := p\<rparr>"
  by (cases params) auto

lemma generateVideo_storySequence:
  assumes "mode params = STORY_MODE" and "storyPrompts params = Some prompts" and "prompts \<noteq> []"
    and "GoogleGenAI env (API_KEY env) = Inr ()"
  shows "generateVideo env params w =
           (case storySequence env params prompts w of
              None \<Rightarrow> None
            | Some (Inl e, w') \<Rightarrow> Some (Inl e, w')
            | Some (Inr results, w') \<Rightarrow> Some (Inr (last results), w'))"
proof -
  from assms(3) obtain p ps where ps: "prompts = p # ps" by (cases prompts) auto
  have st: "storyStep env params prompts 0 None w =
              performGeneration env (params\<lparr>mode := STORY_MODE, prompt := p\<rparr>) None None w"
    using ps by (simp add: storyStep_def)
  have gv: "generateVideo env params w =
              (case storyLoop env params prompts 0 None w of
                 None \<Rightarrow> None
               | Some (Inl e, w') \<Rightarrow> Some (Inl e, w')
               | Some (Inr None, w') \<Rightarrow> Some (Inl StoryEmpty, w')
               | Some (Inr (Some currentResult), w') \<Rightarrow> Some (Inr currentResult, w'))"
    using assms by (simp add: generateVideo_def)
  show ?thesis
  proof (cases "performGeneration env (params\<lparr>mode := STORY_MODE, prompt := p\<rparr>) None None w")
    case None
    with st ps have "storyLoop env params prompts 0 None w = None"
      by (subst storyLoop.simps) simp
    with gv None ps show ?thesis by simp
  next
    case (Some y)
    obtain x w1 where y: "y = (x, w1)" by (cases y)
    show ?thesis
    proof (cases x)
      case (Inl e)
      with Some y st ps have "storyLoop env params prompts 0 None w = Some (Inl e, w1)"
        by (subst storyLoop.simps) simp
      with gv Some y Inl ps show ?thesis by simp
    next
      case (Inr r)
      have "storyLoop env params prompts 0 None w = storyLoop env params prompts (Suc 0) (Some r) w1"
        using Some y Inr st ps by (subst storyLoop.simps) simp
      also have "\<dots> = (case storyChain env params ps r w1 of
          None \<Rightarrow> None
        | Some (Inl e, w') \<Rightarrow> Some (Inl e, w')
        | Some (Inr rs, w') \<Rightarrow> Some (Inr (Some (last (r # rs))), w'))"
        using storyLoop_chain[of "Suc 0" env params prompts r w1] ps by simp
      finally show ?thesis using gv Some y Inr ps
        by (auto split: option.splits sum.splits prod.splits)
    qed
  qed
qed

lemma payload_prompt_override:
  assumes "performGeneration_payload params (Some s) (Some v) = Inr pl" and "s \<noteq> []"
  shows "pl_prompt pl = Some s"
  using payload_prompt[OF assms(1)] assms(2)
  by (simp add: activePrompt_spaced basePrompt_def Let_def)

lemma payload_prompt_first:
  assumes "performGeneration_payload (params\<lparr>prompt := p\<rparr>) None None = Inr pl"
    and "referenceImages params = None"
  shows "pl_prompt pl = (if p = [] then None else Some p)"
  using payload_prompt[OF assms(1)] assms(2)
  by (simp add: activePrompt_spaced basePrompt_def Let_def)

lemma storySequence_results:
  assumes "mode params = STORY_MODE" and "prompts \<noteq> []"
    and "storySequence env params prompts w = Some (Inr results, w')"
  shows "length results = length prompts
         \<and> (\<exists>payloads. submissions (trace w') = submissions (trace w) @ payloads
              \<and> length payloads = length prompts
              \<and> performGeneration_payload (params\<lparr>prompt := prompts ! 0\<rparr>) None None
                  = Inr (payloads ! 0)
              \<and> pl_video (payloads ! 0) = None
              \<and> (referenceImages params = None \<longrightarrow>
                    pl_prompt (payloads ! 0) = (if prompts ! 0 = [] then None else Some (prompts ! 0)))
              \<and> (\<forall>k. 0 < k \<and> k < length prompts \<longrightarrow>
                    performGeneration_payload params (Some (prompts ! k))
                      (Some (res_video (results ! (k - 1)))) = Inr (payloads ! k)
                    \<and> pl_video (payloads ! k) = Some (res_video (results ! (k - 1)))
                    \<and> (prompts ! k \<noteq> [] \<longrightarrow> pl_prompt (payloads ! k) = Some (prompts ! k))))"
proof -
  from assms(2) obtain p ps where ps: "prompts = p # ps" by (cases prompts) auto
  from assms(3) ps obtain r w1 rs where
    first: "performGeneration env (params\<lparr>mode := STORY_MODE, prompt := p\<rparr>) None None w
              = Some (Inr r, w1)"
    and rest: "storyChain env params ps r w1 = Some (Inr rs, w')"
    and res: "results = r # rs"
    by (auto split: option.splits sum.splits prod.splits)
  from performGeneration_success[OF first] obtain pl where
    pl: "performGeneration_payload (params\<lparr>prompt := p\<rparr>) None None = Inr pl"
    and t1: "submissions (trace w1) = submissions (trace w) @ [pl]"
    by (auto simp: story_first_params[OF assms(1)])
  have v0: "pl_video pl = None"
    using payload_video[OF pl] assms(1) by simp
  have p0: "referenceImages params = None \<longrightarrow> pl_prompt pl = (if p = [] then None else Some p)"
    using payload_prompt_first[OF pl] by simp
  from storyChain_results[OF rest] obtain pls where
    len: "length rs = length ps"
    and t2: "submissions (trace w') = submissions (trace w1) @ pls"
    and lp: "length pls = length ps"
    and each: "\<forall>k<length ps. performGeneration_payload params (Some (ps ! k))
                    (Some (res_video ((r # rs) ! k))) = Inr (pls ! k)"
    by blast
  have later: "\<forall>k. 0 < k \<and> k < length prompts \<longrightarrow>
                    performGeneration_payload params (Some (prompts ! k))
                      (Some (res_video (results ! (k - 1)))) = Inr ((pl # pls) ! k)
                    \<and> pl_video ((pl # pls) ! k) = Some (res_video (results ! (k - 1)))
                    \<and> (prompts ! k \<noteq> [] \<longrightarrow> pl_prompt ((pl # pls) ! k) = Some (prompts ! k))"
  proof (intro allI impI)
    fix k assume k: "0 < k \<and> k < length prompts"
    then obtain j where j: "k = Suc j" "j < length ps" using ps by (cases k) auto
    from each j have b: "performGeneration_payload params (Some (ps ! j))
                    (Some (res_video ((r # rs) ! j))) = Inr (pls ! j)" by simp
    from payload_video[OF b] have v: "pl_video (pls ! j) = Some (res_video ((r # rs) ! j))"
      by simp
    have "ps ! j \<noteq> [] \<longrightarrow> pl_prompt (pls ! j) = Some (ps ! j)"
      using payload_prompt_override[OF b] by simp
    with b v j ps res show "performGeneration_payload params (Some (prompts ! k))
                      (Some (res_video (results ! (k - 1)))) = Inr ((pl # pls) ! k)
                    \<and> pl_video ((pl # pls) ! k) = Some (res_video (results ! (k - 1)))
                    \<and> (prompts ! k \<noteq> [] \<longrightarrow> pl_prompt ((pl # pls) ! k) = Some (prompts ! k))"
      by simp
  qed
  have "submissions (trace w') = submissions (trace w) @ (pl # pls)" using t1 t2 by simp
  moreover have "length (pl # pls) = length prompts" using lp ps by simp
  moreover have "performGeneration_payload (params\<lparr>prompt := prompts ! 0\<rparr>) None None
                  = Inr ((pl # pls) ! 0)" using pl ps by simp
  moreover have "pl_video ((pl # pls) ! 0) = None" using v0 by simp
  moreover have "referenceImages params = None \<longrightarrow>
                    pl_prompt ((pl # pls) ! 0) = (if prompts ! 0 = [] then None else Some (prompts ! 0))"
    using p0 ps by simp
  ultimately have "\<exists>payloads. submissions (trace w') = submissions (trace w) @ payloads
              \<and> length payloads = length prompts
              \<and> performGeneration_payload (params\<lparr>prompt := prompts ! 0\<rparr>) None None
                  = Inr (payloads ! 0)
              \<and> pl_video (payloads ! 0) = None
              \<and> (referenceImages params = None \<longrightarrow>
                    pl_prompt (payloads ! 0) = (if prompts ! 0 = [] then None else Some (prompts ! 0)))
              \<and> (\<forall>k. 0 < k \<and> k < length prompts \<longrightarrow>
                    performGeneration_payload params (Some (prompts ! k))
                      (Some (res_video (results ! (k - 1)))) = Inr (payloads ! k)
                    \<and> pl_video (payloads ! k) = Some (res_video (results ! (k - 1)))
                    \<and> (prompts ! k \<noteq> [] \<longrightarrow> pl_prompt (payloads ! k) = Some (prompts ! k)))"
    using later by (intro exI[of _ "pl # pls"]) blast
  moreover have "length results = length prompts" using len res ps by simp
  ultimately show ?thesis by blast
qed

text \<open>On a remote side that completes every job, every cycle returns a result.\<close>

lemma fetch_success:
  assumes "assetFetchable env operation"
  shows "\<exists>r w'. performGeneration_fetch env operation w = (Inr r, w')"
proof -
  from assms obtain resp gv gvs v u url where
    a: "response operation = Some resp" "generatedVideos resp = Some (gv # gvs)"
       "video gv = Some v" "uri v = Some u" "u \<noteq> []" "decodeURIComponent env u = Inr url"
    and f: "\<forall>s. \<exists>res body. fst (fetch env (url @ ''&key='' @ apiKeyText env) s) = Inr res
                \<and> ok res \<and> blob_body res = Inr body"
    unfolding assetFetchable_def by blast
  from f obtain res body where
    "fst (fetch env (url @ ''&key='' @ apiKeyText env) (remote w)) = Inr res"
    "ok res" "blob_body res = Inr body"
    by blast
  with a show ?thesis by (simp add: performGeneration_fetch_def Let_def)
qed

lemma poll_done:
  "op_done operation \<Longrightarrow> performGeneration_poll env operation w = Some (Inr operation, w)"
  by (subst performGeneration_poll.simps) simp

lemma cycle_completes:
  assumes "completesEveryJob env"
  shows "\<exists>r w'. performGeneration_cycle env payload w = Some (Inr r, w')"
proof -
  let ?w1 = "w\<lparr>remote := snd (generateVideos env payload (remote w)),
               trace := trace w @ [Submit payload]\<rparr>"
  from assms obtain operation0 where
    g: "fst (generateVideos env payload (remote w)) = Inr operation0"
    and c: "if op_done operation0 then assetFetchable env operation0
            else (\<exists>n ops.
                    pollScript env (Suc n) operation0 (snd (generateVideos env payload (remote w)))
                      = map Inr ops
                    \<and> (\<forall>i<n. \<not> op_done (ops ! i)) \<and> op_done (ops ! n)
                    \<and> assetFetchable env (ops ! n))"
    unfolding completesEveryJob_def by blast
  have "\<exists>operation w2. performGeneration_poll env operation0 ?w1 = Some (Inr operation, w2)
          \<and> assetFetchable env operation"
  proof (cases "op_done operation0")
    case True
    with c poll_done[OF True, of env ?w1] show ?thesis by auto
  next
    case False
    with c obtain n ops where
      s: "pollScript env (Suc n) operation0 (remote ?w1) = map Inr ops"
      and nd: "\<forall>i<n. \<not> op_done (ops ! i)" and d: "op_done (ops ! n)"
      and af: "assetFetchable env (ops ! n)"
      by auto
    from poll_progress[OF s False nd d] af show ?thesis by blast
  qed
  then obtain operation w2 where
    p: "performGeneration_poll env operation0 ?w1 = Some (Inr operation, w2)"
    and af: "assetFetchable env operation"
    by blast
  from fetch_success[OF af, of w2] cycle_after_poll[OF g p] show ?thesis by auto
qed

lemma performGeneration_completes:
  assumes "completesEveryJob env"
    and "performGeneration_payload params overridePrompt overrideVideoInput = Inr pl"
  shows "\<exists>r w'. performGeneration env params overridePrompt overrideVideoInput w = Some (Inr r, w')"
  using cycle_completes[OF assms(1), of pl w] assms(2) by (simp add: performGeneration_def)

lemma storyChain_completes:
  assumes "completesEveryJob env"
  shows "\<exists>rs w'. storyChain env params ps previous w = Some (Inr rs, w')"
proof (induction ps arbitrary: previous w)
  case Nil
  show ?case by simp
next
  case (Cons p ps)
  obtain pl where "performGeneration_payload params (Some p) (Some (res_video previous)) = Inr pl"
    using payload_total[of params "Some (res_video previous)" "Some p"] by auto
  from performGeneration_completes[OF assms this, of w] obtain r w1 where
    s: "performGeneration env params (Some p) (Some (res_video previous)) w = Some (Inr r, w1)"
    by blast
  from Cons.IH[of r w1] obtain rs w' where "storyChain env params ps r w1 = Some (Inr rs, w')"
    by blast
  with s show ?case by simp
qed

lemma storySequence_completes:
  assumes "completesEveryJob env"
  shows "\<exists>results w'. storySequence env params prompts w = Some (Inr results, w')"
proof (cases prompts)
  case Nil
  then show ?thesis by simp
next
  case (Cons p ps)
  obtain pl where
    "performGeneration_payload (params\<lparr>mode := STORY_MODE, prompt := p\<rparr>) None None = Inr pl"
    using payload_total[of "params\<lparr>mode := STORY_MODE, prompt := p\<rparr>" None None] by auto
  from performGeneration_completes[OF assms this, of w] obtain r w1 where
    s: "performGeneration env (params\<lparr>mode := STORY_MODE, prompt := p\<rparr>) None None w
          = Some (Inr r, w1)"
    by blast
  from storyChain_completes[OF assms, of params ps r w1] obtain rs w' where
    "storyChain env params ps r w1 = Some (Inr rs, w')" by blast
  with s Cons show ?thesis by simp
qed

text \<open>On the sample remote side that completes at the first status query, every cycle succeeds.\<close>

lemma spy_cycle:
  assumes "pl_prompt payload = Some name"
  shows "\<exists>w'. performGeneration_cycle (spyRemote 0 oneAsset) payload w
                 = Some (Inr (sampleResult name), w')"
proof -
  let ?env = "spyRemote 0 oneAsset"
  let ?w1 = "w\<lparr>remote := snd (generateVideos ?env payload (remote w)),
               trace := trace w @ [Submit payload]\<rparr>"
  have g: "fst (generateVideos ?env payload (remote w)) = Inr (pendingJob name)"
    using assms by (simp add: spyRemote_def pendingJob_def)
  have s: "pollScript ?env (Suc 0) (pendingJob name) (remote ?w1)
             = map Inr [finishedJob name (oneAsset name)]"
    by (simp add: spy_getVideosOperation)
  from poll_progress[OF s] obtain w2 where
    p: "performGeneration_poll ?env (pendingJob name) ?w1
          = Some (Inr (finishedJob name (oneAsset name)), w2)"
    by auto
  have "fst (performGeneration_fetch ?env (finishedJob name (oneAsset name)) w2)
          = Inr (sampleResult name)"
    by (simp add: performGeneration_fetch_def oneAsset_def sampleVideo_def sampleResult_def
          Let_def spyRemote_def finishedJob_def)
  then show ?thesis
    using cycle_after_poll[OF g p]
    by (cases "performGeneration_fetch ?env (finishedJob name (oneAsset name)) w2") auto
qed

lemma spy_completes: "completesEveryJob (spyRemote 0 oneAsset)"
proof -
  have "\<exists>operation0.
        fst (generateVideos (spyRemote 0 oneAsset) payload s) = Inr operation0
        \<and> (if op_done operation0 then assetFetchable (spyRemote 0 oneAsset) operation0
            else (\<exists>n ops.
                    pollScript (spyRemote 0 oneAsset) (Suc n) operation0
                        (snd (generateVideos (spyRemote 0 oneAsset) payload s))
                      = map Inr ops
                    \<and> (\<forall>i<n. \<not> op_done (ops ! i)) \<and> op_done (ops ! n)
                    \<and> assetFetchable (spyRemote 0 oneAsset) (ops ! n)))" for payload s
  proof -
    let ?env = "spyRemote 0 oneAsset"
    define name where "name = (case pl_prompt payload of None \<Rightarrow> ''job'' | Some p \<Rightarrow> p)"
    have g: "generateVideos ?env payload s = (Inr (pendingJob name), 0)"
      by (simp add: spyRemote_def pendingJob_def name_def)
    have sc: "pollScript ?env (Suc 0) (pendingJob name) 0
                = map Inr [finishedJob name (oneAsset name)]"
      by (simp add: spy_getVideosOperation)
    have fe: "\<forall>s. \<exists>res body.
                fst (fetch ?env ((''https://v.example/'' @ name) @ ''&key='' @ apiKeyText ?env) s)
                  = Inr res \<and> ok res \<and> blob_body res = Inr body"
      by (simp add: spyRemote_def)
    have af: "assetFetchable ?env (finishedJob name (oneAsset name))"
      unfolding assetFetchable_def
      by (rule exI[of _ "\<lparr>generatedVideos = oneAsset name\<rparr>"],
          rule exI[of _ "\<lparr>video = Some (sampleVideo (''https://v.example/'' @ name))\<rparr>"],
          rule exI[of _ "[]"],
          rule exI[of _ "sampleVideo (''https://v.example/'' @ name)"],
          rule exI[of _ "''https://v.example/'' @ name"],
          rule exI[of _ "''https://v.example/'' @ name"])
         (use fe in \<open>simp add: oneAsset_def sampleVideo_def\<close>)
    have "\<exists>n ops. pollScript ?env (Suc n) (pendingJob name) 0 = map Inr ops
            \<and> (\<forall>i<n. \<not> op_done (ops ! i)) \<and> op_done (ops ! n)
            \<and> assetFetchable ?env (ops ! n)"
      by (rule exI[of _ 0], rule exI[of _ "[finishedJob name (oneAsset name)]"])
         (use sc af in simp)
    then show ?thesis by (simp add: g)
  qed
  then show ?thesis unfolding completesEveryJob_def by blast
qed

lemma spy_client: "GoogleGenAI (spyRemote n assets) (API_KEY (spyRemote n assets)) = Inr ()"
  by (simp add: spyRemote_def)

lemma spy_performGeneration:
  assumes "performGeneration_payload params overridePrompt overrideVideoInput = Inr payload"
    and "pl_prompt payload = Some name"
  shows "\<exists>w'. performGeneration (spyRemote 0 oneAsset) params overridePrompt overrideVideoInput w
                 = Some (Inr (sampleResult name), w')"
  using spy_cycle[OF assms(2), of w] assms(1) by (simp add: performGeneration_def)

lemma storyRequest_fields:
  "mode storyRequest = STORY_MODE" "storyPrompts storyRequest = Some [''open'', ''continue'']"
  "referenceImages storyRequest = None" "prompt storyRequest = ''A chase''"
  by (simp_all add: storyRequest_def sampleRequest_def)

lemma storyRequest_first:
  "\<exists>w'. performGeneration (spyRemote 0 oneAsset) (storyRequest\<lparr>prompt := ''open''\<rparr>) None None w
           = Some (Inr (sampleResult ''open''), w')"
proof -
  obtain pl where pl: "performGeneration_payload (storyRequest\<lparr>prompt := ''open''\<rparr>) None None = Inr pl"
    using payload_total[of "storyRequest\<lparr>prompt := ''open''\<rparr>" None None]
    by (auto simp: storyRequest_fields)
  have "pl_prompt pl = Some ''open''"
    using payload_prompt[OF pl]
    by (simp add: activePrompt_def basePrompt_def storyRequest_fields)
  from spy_performGeneration[OF pl this] show ?thesis .
qed

lemma storyRequest_second:
  "\<exists>w'. performGeneration (spyRemote 0 oneAsset) storyRequest (Some ''continue'')
           (Some (res_video (sampleResult ''open''))) w
           = Some (Inr (sampleResult ''continue''), w')"
proof -
  obtain pl where pl: "performGeneration_payload storyRequest (Some ''continue'')
                         (Some (res_video (sampleResult ''open''))) = Inr pl"
    using payload_total[of storyRequest "Some (res_video (sampleResult ''open''))" "Some ''continue''"]
    by auto
  have "pl_prompt pl = Some ''continue''"
    using payload_prompt[OF pl]
    by (simp add: activePrompt_def basePrompt_def storyRequest_fields)
  from spy_performGeneration[OF pl this] show ?thesis .
qed

text \<open>
  C1, as the code has it. For a STORY_MODE request with \<open>n > 0\<close> story prompts, once
  the client is constructed, \<^verbatim>\<open>generateVideo\<close> runs the steps in prompt order and
  stops at the first step that fails or does not return, with that step's outcome;
  otherwise it returns the result of the last step only. Whenever all steps return a
  result, there are \<open>n\<close> results and the run has made exactly \<open>n\<close> submissions: the
  first is built from the request with the first prompt and has no video field, and for
  each later step \<open>k\<close> the submission is built with the prompt of step \<open>k\<close>, which is
  its prompt when it is not empty, and its video field is the remote video object of the
  result of step \<open>k - 1\<close>. On a remote side that completes every job all steps do
  return a result, so \<^verbatim>\<open>generateVideo\<close> returns the result of step \<open>n\<close> after
  exactly \<open>n\<close> submissions.
\<close>

theorem C1_story_sequence:
  assumes "mode params = STORY_MODE" and "storyPrompts params = Some prompts" and "prompts \<noteq> []"
    and "GoogleGenAI env (API_KEY env) = Inr ()"
  shows "generateVideo env params w =
           (case storySequence env params prompts w of
              None \<Rightarrow> None
            | Some (Inl e, w') \<Rightarrow> Some (Inl e, w')
            | Some (Inr results, w') \<Rightarrow> Some (Inr (last results), w'))
         \<and> (\<forall>results w'. storySequence env params prompts w = Some (Inr results, w') \<longrightarrow>
              length results = length prompts
              \<and> (\<exists>payloads. submissions (trace w') = submissions (trace w) @ payloads
                   \<and> length payloads = length prompts
                   \<and> performGeneration_payload (params\<lparr>prompt := prompts ! 0\<rparr>) None None
                       = Inr (payloads ! 0)
                   \<and> pl_video (payloads ! 0) = None
                   \<and> (referenceImages params = None \<longrightarrow>
                         pl_prompt (payloads ! 0)
                           = (if prompts ! 0 = [] then None else Some (prompts ! 0)))
                   \<and> (\<forall>k. 0 < k \<and> k < length prompts \<longrightarrow>
                         performGeneration_payload params (Some (prompts ! k))
                           (Some (res_video (results ! (k - 1)))) = Inr (payloads ! k)
                         \<and> pl_video (payloads ! k) = Some (res_video (results ! (k - 1)))
                         \<and> (prompts ! k \<noteq> [] \<longrightarrow>
                               pl_prompt (payloads ! k) = Some (prompts ! k)))))
         \<and> (completesEveryJob env \<longrightarrow>
              (\<exists>results w'. storySequence env params prompts w = Some (Inr results, w')
                 \<and> generateVideo env params w = Some (Inr (last results), w')
                 \<and> length results = length prompts
                 \<and> length (submissions (trace w'))
                     = length (submissions (trace w)) + length prompts))"
proof -
  note gv = generateVideo_storySequence[OF assms, of w]
  note res = storySequence_results[OF assms(1,3), of env w]
  have "\<exists>results w'. storySequence env params prompts w = Some (Inr results, w')
                 \<and> generateVideo env params w = Some (Inr (last results), w')
                 \<and> length results = length prompts
                 \<and> length (submissions (trace w'))
                     = length (submissions (trace w)) + length prompts"
    if c: "completesEveryJob env"
  proof -
    from storySequence_completes[OF c, of params prompts w] obtain results w' where
      s: "storySequence env params prompts w = Some (Inr results, w')" by blast
    from res[OF s] obtain payloads where
      "length results = length prompts"
      "submissions (trace w') = submissions (trace w) @ payloads"
      "length payloads = length prompts"
      by blast
    with s gv show ?thesis by auto
  qed
  with gv res show ?thesis by blast
qed

theorem C1_witness:
  "\<exists>w' payloads. generateVideo (spyRemote 0 oneAsset) storyRequest freshWorld
        = Some (Inr (sampleResult ''continue''), w')
     \<and> submissions (trace w') = payloads \<and> length payloads = 2
     \<and> map pl_prompt payloads = [Some ''open'', Some ''continue'']
     \<and> map pl_video payloads = [None, Some (sampleVideo ''https://v.example/open'')]"
proof -
  let ?env = "spyRemote 0 oneAsset"
  let ?prompts = "[''open'', ''continue'']"
  let ?results = "[sampleResult ''open'', sampleResult ''continue'']"
  obtain w1 where s1: "performGeneration ?env (storyRequest\<lparr>prompt := ''open''\<rparr>) None None freshWorld
           = Some (Inr (sampleResult ''open''), w1)"
    using storyRequest_first[of freshWorld] by blast
  obtain w2 where s2: "performGeneration ?env storyRequest (Some ''continue'')
           (Some (res_video (sampleResult ''open''))) w1 = Some (Inr (sampleResult ''continue''), w2)"
    using storyRequest_second[of w1] by blast
  have seq: "storySequence ?env storyRequest ?prompts freshWorld = Some (Inr ?results, w2)"
    using s1 s2 by (simp add: story_first_params[OF storyRequest_fields(1)])
  have ne: "?prompts \<noteq> []" by simp
  note c1 = C1_story_sequence[OF storyRequest_fields(1,2) ne spy_client[of 0 oneAsset],
                where w = freshWorld]
  from c1 spy_completes obtain results w' where
    a: "storySequence ?env storyRequest ?prompts freshWorld = Some (Inr results, w')"
    and b: "generateVideo ?env storyRequest freshWorld = Some (Inr (last results), w')"
    by blast
  have "results = ?results" "w' = w2"
    using trans[OF a[symmetric] seq] by simp_all
  with b have gv: "generateVideo ?env storyRequest freshWorld
        = Some (Inr (sampleResult ''continue''), w2)" by simp
  from c1 seq obtain payloads where
    t: "submissions (trace w2) = submissions (trace freshWorld) @ payloads"
    and l: "length payloads = length ?prompts"
    and v0: "pl_video (payloads ! 0) = None"
    and p0: "referenceImages storyRequest = None \<longrightarrow>
               pl_prompt (payloads ! 0) = (if ?prompts ! 0 = [] then None else Some (?prompts ! 0))"
    and vk: "\<forall>k. 0 < k \<and> k < length ?prompts \<longrightarrow>
               performGeneration_payload storyRequest (Some (?prompts ! k))
                 (Some (res_video (?results ! (k - 1)))) = Inr (payloads ! k)
               \<and> pl_video (payloads ! k) = Some (res_video (?results ! (k - 1)))
               \<and> (?prompts ! k \<noteq> [] \<longrightarrow> pl_prompt (payloads ! k) = Some (?prompts ! k))"
    by blast
  from l obtain a b where ab: "payloads = [a, b]"
    by (cases payloads; cases "tl payloads") auto
  from vk[rule_format, of 1] have k1: "pl_video (payloads ! 1) = Some (sampleVideo ''https://v.example/open'')"
    "pl_prompt (payloads ! 1) = Some ''continue''"
    by (simp_all add: sampleResult_def)
  from p0 have k0: "pl_prompt (payloads ! 0) = Some ''open''"
    by (simp add: storyRequest_fields)
  from t have "submissions (trace w2) = payloads" by (simp add: freshWorld_def)
  with gv ab v0 k0 k1 show ?thesis by auto
qed

text \<open>
  C1, as the claim states it, fails on a run in which a step fails: with two story
  prompts and a remote side that completes the first job without assets, the run makes
  one submission, not two, and returns no result but the error NoAssetsProduced.
\<close>

theorem C1_counterexample:
  "storyPrompts storyRequest = Some [''open'', ''continue'']
   \<and> mode storyRequest = STORY_MODE
   \<and> map_option fst (generateVideo (spyRemote 0 noAssets) storyRequest freshWorld)
       = Some (Inl NoAssetsProduced)
   \<and> map_option (length \<circ> submissions \<circ> trace \<circ> snd)
       (generateVideo (spyRemote 0 noAssets) storyRequest freshWorld) = Some 1"
proof -
  let ?env = "spyRemote 0 noAssets"
  let ?p = "storyRequest\<lparr>mode := STORY_MODE, prompt := ''open''\<rparr>"
  obtain pl where pl: "performGeneration_payload ?p None None = Inr pl"
    using payload_total[of ?p None None] by auto
  have pp: "pl_prompt pl = Some ''open''"
    using payload_prompt[OF pl]
    by (simp add: activePrompt_def basePrompt_def storyRequest_fields)
  let ?w1 = "freshWorld\<lparr>remote := snd (generateVideos ?env pl (remote freshWorld)),
               trace := trace freshWorld @ [Submit pl]\<rparr>"
  have g: "fst (generateVideos ?env pl (remote freshWorld)) = Inr (pendingJob ''open'')"
    using pp by (simp add: spyRemote_def pendingJob_def)
  have s: "pollScript ?env (Suc 0) (pendingJob ''open'') (remote ?w1)
             = map Inr [finishedJob ''open'' (noAssets ''open'')]"
    by (simp add: spy_getVideosOperation)
  from poll_progress[OF s] obtain w2 where
    p: "performGeneration_poll ?env (pendingJob ''open'') ?w1
          = Some (Inr (finishedJob ''open'' (noAssets ''open'')), w2)"
    and t: "trace w2 = trace ?w1 @ pollEvents (pendingJob ''open'' # take 0 [finishedJob ''open'' (noAssets ''open'')])"
    by auto
  have f: "performGeneration_fetch ?env (finishedJob ''open'' (noAssets ''open'')) w2
             = (Inl NoAssetsProduced, w2)"
    by (rule fetch_no_assets[of _ "\<lparr>generatedVideos = noAssets ''open''\<rparr>"])
       (simp_all add: noAssets_def)
  have "performGeneration_cycle ?env pl freshWorld = Some (Inl NoAssetsProduced, w2)"
    using cycle_after_poll[OF g p] f by simp
  with pl have "storyStep ?env storyRequest [''open'', ''continue''] 0 None freshWorld
                  = Some (Inl NoAssetsProduced, w2)"
    by (simp add: storyStep_def performGeneration_def)
  then have "storyLoop ?env storyRequest [''open'', ''continue''] 0 None freshWorld
               = Some (Inl NoAssetsProduced, w2)"
    by (subst storyLoop.simps) simp
  then have gv: "generateVideo ?env storyRequest freshWorld = Some (Inl NoAssetsProduced, w2)"
    by (simp add: generateVideo_def spy_client storyRequest_fields)
  have "submissions (trace w2) = [pl]" using t by (simp add: freshWorld_def)
  with gv show ?thesis by (simp add: storyRequest_fields)
qed

lemma storyLoop_not_ChainBroken:
  "i = 0 \<or> currentResult \<noteq> None \<Longrightarrow>
     storyLoop env params prompts i currentResult w \<noteq> Some (Inl ChainBroken, w')"
proof (induction "length prompts - i" arbitrary: i currentResult w)
  case 0
  then show ?case by (subst storyLoop.simps) simp
next
  case (Suc n)
  then have lt: "i < length prompts" by simp
  have n: "n = length prompts - Suc i" using Suc.hyps(2) by simp
  have st: "storyStep env params prompts i currentResult w \<noteq> Some (Inl ChainBroken, w'')" for w''
    using Suc.prems
    by (auto simp: storyStep_def Let_def performGeneration_not_ChainBroken)
  show ?case
  proof (cases "storyStep env params prompts i currentResult w")
    case None
    with lt show ?thesis by (subst storyLoop.simps) simp
  next
    case (Some y)
    obtain x w1 where y: "y = (x, w1)" by (cases y)
    show ?thesis
    proof (cases x)
      case (Inl e)
      with Some y st[of w1] have "e \<noteq> ChainBroken" by auto
      with Some y Inl lt show ?thesis by (subst storyLoop.simps) simp
    next
      case (Inr r)
      have "storyLoop env params prompts i currentResult w
              = storyLoop env params prompts (Suc i) (Some r) w1"
        using Some y Inr lt by (subst storyLoop.simps) simp
      with Suc.hyps(1)[OF n, of "Some r" w1] show ?thesis by simp
    qed
  qed
qed

lemma generateVideo_not_ChainBroken:
  "generateVideo env params w \<noteq> Some (Inl ChainBroken, w')"
proof -
  have "storyLoop env params prompts 0 None w \<noteq> Some (Inl ChainBroken, w')" for prompts
    using storyLoop_not_ChainBroken[of 0 None env params prompts w w'] by simp
  then show ?thesis
    using performGeneration_not_ChainBroken[of env params None None w w']
    by (auto simp: generateVideo_def split: option.splits sum.splits prod.splits)
qed

lemma storyReach_result:
  "storyReach env params prompts w0 i currentResult w \<Longrightarrow> 0 < i \<Longrightarrow> currentResult \<noteq> None"
  by (induction rule: storyReach.induct) simp_all

lemma storyReach_loop:
  "storyReach env params prompts w0 i currentResult w \<Longrightarrow>
     storyLoop env params prompts 0 None w0 = storyLoop env params prompts i currentResult w"
proof (induction rule: storyReach.induct)
  case start
  show ?case by simp
next
  case (step i currentResult w r w')
  have "storyLoop env params prompts i currentResult w
          = storyLoop env params prompts (Suc i) (Some r) w'"
    using step.hyps(2,3) by (subst storyLoop.simps) simp
  with step.IH show ?case by simp
qed

lemma storyReach_step_not_ChainBroken:
  assumes "storyReach env params prompts w0 i currentResult w"
  shows "storyStep env params prompts i currentResult w \<noteq> Some (Inl ChainBroken, w')"
proof (cases "i = 0")
  case True
  then show ?thesis
    by (simp add: storyStep_def performGeneration_not_ChainBroken)
next
  case False
  with storyReach_result[OF assms] obtain previous where "currentResult = Some previous" by auto
  with False show ?thesis
    by (simp add: storyStep_def performGeneration_not_ChainBroken)
qed

text \<open>
  C9. At every state in which the loop of \<^verbatim>\<open>generateVideo\<close> stands at the head of an
  iteration after the first, \<^verbatim>\<open>currentResult\<close> holds a result; such a state is reached
  only through iterations that returned a result, and the loop run from the start equals
  the loop run from that state. So the body never throws ChainBroken at such a state, and
  neither the loop nor \<^verbatim>\<open>generateVideo\<close> ever fails with ChainBroken.
\<close>

theorem C9_chain_broken_unreachable:
  "(storyReach env params prompts w0 i currentResult w \<and> 0 < i \<longrightarrow> currentResult \<noteq> None)
   \<and> (storyReach env params prompts w0 i currentResult w \<longrightarrow>
        storyLoop env params prompts 0 None w0 = storyLoop env params prompts i currentResult w
        \<and> storyStep env params prompts i currentResult w \<noteq> Some (Inl ChainBroken, w'))
   \<and> storyLoop env params prompts 0 None w0 \<noteq> Some (Inl ChainBroken, w')
   \<and> generateVideo env params w0 \<noteq> Some (Inl ChainBroken, w')"
  using storyReach_result[of env params prompts w0 i currentResult w]
    storyReach_loop[of env params prompts w0 i currentResult w]
    storyReach_step_not_ChainBroken[of env params prompts w0 i currentResult w w']
    storyLoop_not_ChainBroken[of 0 None env params prompts w0 w']
    generateVideo_not_ChainBroken[of env params w0 w']
  by blast

theorem C9_witness:
  "\<exists>w1. storyReach (spyRemote 0 oneAsset) storyRequest [''open'', ''continue''] freshWorld
           (Suc 0) (Some (sampleResult ''open'')) w1
     \<and> storyStep (spyRemote 0 oneAsset) storyRequest [''open'', ''continue''] (Suc 0)
           (Some (sampleResult ''open'')) w1 \<noteq> Some (Inl ChainBroken, w1)
     \<and> generateVideo (spyRemote 0 oneAsset) storyRequest freshWorld \<noteq> Some (Inl ChainBroken, w1)"
proof -
  let ?env = "spyRemote 0 oneAsset"
  let ?prompts = "[''open'', ''continue'']"
  obtain w1 where s1: "performGeneration ?env (storyRequest\<lparr>prompt := ''open''\<rparr>) None None freshWorld
           = Some (Inr (sampleResult ''open''), w1)"
    using storyRequest_first[of freshWorld] by blast
  have st: "storyStep ?env storyRequest ?prompts 0 None freshWorld
              = Some (Inr (sampleResult ''open''), w1)"
    using s1 by (simp add: storyStep_def story_first_params storyRequest_fields)
  have r: "storyReach ?env storyRequest ?prompts freshWorld (Suc 0) (Some (sampleResult ''open'')) w1"
    using storyReach.step[OF storyReach.start _ st] by simp
  from C9_chain_broken_unreachable
    [of ?env storyRequest ?prompts freshWorld "Suc 0" "Some (sampleResult ''open'')" w1 w1] r
  show ?thesis by blast
qed

end
